theory Spec2Isabelle
  imports Complex_Main
begin

section \<open>The gait simulation of \<^verbatim>\<open>limbo_old/exp/gaitopt/simulation.cpp\<close>\<close>

text \<open>
  A shallow embedding of the class \<^verbatim>\<open>Simulation\<close>: the terrain generator
  \<^verbatim>\<open>add_blocks\<close>, the per-step controller \<^verbatim>\<open>procedure\<close> and the stepping
  loop \<^verbatim>\<open>run_conf\<close>.

  Conventions of the embedding.
  \<^item> The clock \<^verbatim>\<open>x\<close> decides how long the loop runs, so its arithmetic is that of
    the machine: \<^verbatim>\<open>x += step\<close> is the binary32 sum, the exact sum rounded to the
    nearest float, ties to even (\<open>float_add\<close>), and the step limit is converted to
    \<^verbatim>\<open>float\<close> before it is compared with the clock. A float is the real number it
    stands for; the clock stays in the finite range, overflow to an infinity is outside
    the embedding. \<open>step\<close> is a float too: a real number that is no float stands
    for no call.
  \<^item> In the phases, the angles and the terrain \<^verbatim>\<open>float\<close> and \<^verbatim>\<open>double\<close> values
    are real numbers and the operations are exact: \<^verbatim>\<open>M_PI\<close> is \<open>pi\<close>, and the
    literals \<^verbatim>\<open>1.8f\<close>, \<^verbatim>\<open>0.002\<close>, \<^verbatim>\<open>-0.4\<close> are the decimal fractions they are
    written as. Rounding, infinities and NaN are outside the embedding there.
  \<^item> \<^verbatim>\<open>size_t\<close> is 64 bits wide; the subtraction \<^verbatim>\<open>servos().size() - 4\<close> wraps.
  \<^item> The physics engine, the renderer and the random number generator are not part of
    the sources. They are parameters of the functions that call them:
    \<open>next_step\<close> stands for \<^verbatim>\<open>rob->next_step(step); env->next_step(step)\<close>,
    \<open>vdone k\<close> is the answer of \<^verbatim>\<open>v->done()\<close> in iteration \<open>k\<close> of the loop, and
    \<open>ur lo hi g\<close> draws from \<^verbatim>\<open>boost::uniform_real<>(lo, hi)\<close> over the generator
    state \<open>g\<close>, returning the value and the next state.
  \<^item> \<^verbatim>\<open>std::vector::at\<close> throws \<^verbatim>\<open>std::out_of_range\<close>; the unchecked
    \<^verbatim>\<open>operator[]\<close> and \<^verbatim>\<open>back()\<close> have undefined behaviour out of range. Both are
    values of the type \<open>error\<close>, and an error comes with the state it leaves behind:
    what was written before the exception stays written.
\<close>

subsection \<open>Data\<close>

datatype error = OutOfRange | UndefinedBehaviour

text \<open>
  The robot as the simulation sees it: the target angle (axis \<^verbatim>\<open>DIHEDRAL\<close>) of each
  servo of \<^verbatim>\<open>rob->servos()\<close>, the position \<^verbatim>\<open>rob->pos()\<close>, and the sequence of
  \<^verbatim>\<open>set_angle\<close> calls the servos have received, as pairs of servo index and angle.
\<close>

record robot =
  servos :: "real list"
  pos :: "real \<times> real \<times> real"
  angle_calls :: "(nat \<times> real) list"

text \<open>
  An obstacle: \<^verbatim>\<open>ode::Box(env, pos, 10, w, l, h)\<close> with its rotation and its
  \<^verbatim>\<open>fix()\<close> flag.
\<close>

record box =
  box_pos :: "real \<times> real \<times> real"
  box_mass :: real
  box_w :: real
  box_l :: real
  box_h :: real
  box_rot :: "real \<times> real \<times> real"
  box_fixed :: bool

text \<open>
  The members of \<^verbatim>\<open>Simulation\<close>. The fields carry the prefix \<open>sim_\<close>: a field named
  \<open>x\<close> would capture the variable of that name. \<open>sim_env\<close> holds the three angles the
  environment was built with, \<open>sim_ground\<close> the boxes given to \<^verbatim>\<open>env->add_to_ground\<close>.
\<close>

record simulation =
  sim_x :: real
  sim_tilt :: real
  sim_headless :: bool
  sim_rob :: robot
  sim_boxes :: "box list"
  sim_env :: "real \<times> real \<times> real"
  sim_ground :: "box list"

text \<open>How a call of \<^verbatim>\<open>run_conf\<close> ends: it returns the fitness, an exception leaves it
  with the instance as it is at the throw, or \<^verbatim>\<open>exit(EXIT_SUCCESS)\<close> ends the
  process.\<close>

datatype outcome = Returned real simulation | Threw error simulation | Exited

subsection \<open>The float clock\<close>

text \<open>
  Binary32 arithmetic on the reals. \<open>round_even\<close> rounds to the nearest integer, a tie
  to the even one. \<open>float_exp r\<close> is the exponent of the binade of \<open>r\<close>, not below
  \<open>- 126\<close> (gradual underflow); the floats of the binade are the multiples of
  \<open>float_ulp r\<close>, 24 significant bits. \<open>float_round\<close> is the conversion to
  \<^verbatim>\<open>float\<close> and \<open>float_add\<close> the sum of two floats.

  Modelled from the spec: the type \<^verbatim>\<open>float\<close> of the member \<^verbatim>\<open>x\<close>, which is that
  of \<^verbatim>\<open>step\<close> and of the fitness. Its declaration is in \<^verbatim>\<open>simulation.hh\<close>, which
  is not among the sources.
\<close>

definition round_even :: "real \<Rightarrow> int" where
  "round_even q =
     (let f = \<lfloor>q\<rfloor>; d = q - of_int f
      in if d < 1 / 2 then f else if 1 / 2 < d then f + 1 else if even f then f else f + 1)"

definition float_exp :: "real \<Rightarrow> int" where
  "float_exp r = max \<lfloor>log 2 \<bar>r\<bar>\<rfloor> (- 126)"

definition float_ulp :: "real \<Rightarrow> real" where
  "float_ulp r = 2 powr real_of_int (float_exp r - 23)"

definition float_round :: "real \<Rightarrow> real" where
  "float_round r = real_of_int (round_even (r / float_ulp r)) * float_ulp r"

definition float_add :: "real \<Rightarrow> real \<Rightarrow> real" where
  "float_add a b = float_round (a + b)"

subsection \<open>Terrain: \<^verbatim>\<open>add_blocks\<close> and the constructor\<close>

text \<open>The body of the \<^verbatim>\<open>for\<close> loop of \<^verbatim>\<open>add_blocks\<close>, \<open>k\<close> iterations to go.\<close>

fun add_blocks_loop ::
  "(real \<Rightarrow> real \<Rightarrow> 'g \<Rightarrow> real \<times> 'g) \<Rightarrow> nat \<Rightarrow> int \<Rightarrow> 'g \<Rightarrow> simulation \<Rightarrow> simulation" where
  "add_blocks_loop ur 0 sz g sim = sim"
| "add_blocks_loop ur (Suc k) sz g sim =
    (let xc = - 0.4; yc = 0; s = 0.5;
         (a, g1) = ur 0.002 (real_of_int sz / 1000) g;
         (lx, g2) = ur (- (s - 0.1)) (s - 0.1) g1;
         (ly, g3) = ur (- (s - 0.1)) (s - 0.1) g2;
         x = lx + xc;
         y = ly + yc;
         bsize = a * exp (- ((x - xc)\<^sup>2 / (2 * s\<^sup>2) + (y - yc)\<^sup>2 / (2 * s\<^sup>2)));
         b = \<lparr>box_pos = (x, y, bsize / 2 + tan (sim_tilt sim) * - x),
              box_mass = 10, box_w = bsize * 4, box_l = bsize * 4, box_h = bsize,
              box_rot = (0, - sim_tilt sim, 0), box_fixed = True\<rparr>
     in add_blocks_loop ur k sz g3
          (sim\<lparr>sim_boxes := sim_boxes sim @ [b], sim_ground := sim_ground sim @ [b]\<rparr>))"

text \<open>\<^verbatim>\<open>for (int i = 0; i < count; ++i)\<close> runs \<open>nat count\<close> times: not at all for
  \<open>count \<le> 0\<close>. \<open>g\<close> is the generator seeded with \<^verbatim>\<open>time(0)\<close>; both distributions
  draw from it. That \<^verbatim>\<open>uniform_real\<close> wants its lower bound below its upper bound is
  left to \<open>ur\<close>.\<close>

definition add_blocks ::
  "(real \<Rightarrow> real \<Rightarrow> 'g \<Rightarrow> real \<times> 'g) \<Rightarrow> int \<Rightarrow> int \<Rightarrow> 'g \<Rightarrow> simulation \<Rightarrow> simulation" where
  "add_blocks ur count sz g sim = add_blocks_loop ur (nat count) sz g sim"

text \<open>
  The constructor. \<^verbatim>\<open>orob->clone(*env)\<close> is the prototype robot itself.

  Modelled from the spec: the initial value \<open>0\<close> of the clock \<^verbatim>\<open>x\<close>. The constructor
  in \<^verbatim>\<open>simulation.cpp\<close> does not assign it; its declaration is in
  \<^verbatim>\<open>simulation.hh\<close>, which is not among the sources. The spec lets the clock of a fresh
  instance start at zero.
\<close>

definition Simulation ::
  "(real \<Rightarrow> real \<Rightarrow> 'g \<Rightarrow> real \<times> 'g) \<Rightarrow> robot \<Rightarrow> real \<Rightarrow> int \<Rightarrow> int \<Rightarrow> bool \<Rightarrow> 'g \<Rightarrow> simulation" where
  "Simulation ur orob tilt count sz headless g =
     add_blocks ur count sz g
       \<lparr>sim_x = 0, sim_tilt = tilt, sim_headless = headless, sim_rob = orob,
        sim_boxes = [], sim_env = (0, tilt, 0), sim_ground = []\<rparr>"

subsection \<open>The controller: \<^verbatim>\<open>procedure\<close>\<close>

definition vector_at :: "real list \<Rightarrow> nat \<Rightarrow> error + real" where
  "vector_at data n = (if n < length data then Inr (data ! n) else Inl OutOfRange)"

definition vector_back :: "real list \<Rightarrow> error + real" where
  "vector_back data = (if data = [] then Inl UndefinedBehaviour else Inr (last data))"

text \<open>\<^verbatim>\<open>rob->servos()[i]->set_angle(ode::Servo::DIHEDRAL, ang)\<close>.\<close>

definition set_angle :: "nat \<Rightarrow> real \<Rightarrow> robot \<Rightarrow> error + robot" where
  "set_angle i ang r =
     (if i < length (servos r)
      then Inr (r\<lparr>servos := (servos r)[i := ang], angle_calls := angle_calls r @ [(i, ang)]\<rparr>)
      else Inl UndefinedBehaviour)"

text \<open>\<^verbatim>\<open>rob->servos().size() - 4\<close>, in \<^verbatim>\<open>size_t\<close>.\<close>

definition servo_groups :: "robot \<Rightarrow> nat" where
  "servo_groups r = (length (servos r) + 2 ^ 64 - 4) mod 2 ^ 64"

text \<open>
  Lines 104 to 120: the phase of joint group \<open>i\<close> at clock \<open>x\<close> from the three genes
  \<open>pa\<close>, \<open>ptheta\<close>, \<open>pb\<close> read for the group and the last gene \<open>lastgene\<close>
  (\<^verbatim>\<open>data.back()\<close>), in degrees, as it stands when the angles are set.
\<close>

definition servo_phase :: "nat \<Rightarrow> real \<Rightarrow> real \<Rightarrow> real \<Rightarrow> real \<Rightarrow> real \<Rightarrow> real" where
  "servo_phase i x pa ptheta pb lastgene =
     (let a = pa * 40;
          theta = ptheta * 1;
          b = pb * 40 - 20;
          h = 4;
          f = lastgene * 2;
          a = (if a < 5 then 0 else a);
          phase = a * tanh (h * sin ((f * pi) * (x + theta))) + b;
          phase = (if i = 6 \<or> i = 9 then phase * 1.8 else phase)
      in phase)"

text \<open>Lines 123 to 128: body joints get one call, the others two.\<close>

definition set_joint_angles :: "nat \<Rightarrow> real \<Rightarrow> robot \<Rightarrow> (error \<times> robot) + robot" where
  "set_joint_angles i phase r =
     (if i \<le> 1 then
        (case set_angle i (phase * pi / 180) r of Inl e \<Rightarrow> Inl (e, r) | Inr r' \<Rightarrow> Inr r')
      else
        (case set_angle i (phase * pi / 180) r of
           Inl e \<Rightarrow> Inl (e, r)
         | Inr r' \<Rightarrow>
             (case set_angle ((i + 4) mod 2 ^ 64) (phase * pi / 180) r' of
                Inl e \<Rightarrow> Inl (e, r')
              | Inr r'' \<Rightarrow> Inr r'')))"

text \<open>The \<^verbatim>\<open>for\<close> loop of \<^verbatim>\<open>procedure\<close>, with bound \<open>n\<close>, counter \<open>i\<close> and
  \<^verbatim>\<open>genptr\<close>. The vector is no longer than \<^verbatim>\<open>INT_MAX\<close>, so \<^verbatim>\<open>genptr\<close> does not
  overflow before \<^verbatim>\<open>at\<close> throws. An error carries the robot as the loop leaves it.\<close>

function servo_loop ::
  "nat \<Rightarrow> nat \<Rightarrow> nat \<Rightarrow> real list \<Rightarrow> real \<Rightarrow> robot \<Rightarrow> (error \<times> robot) + robot" where
  "servo_loop n i genptr data x r =
     (if i < n then
        (case vector_at data genptr of Inl e \<Rightarrow> Inl (e, r) | Inr pa \<Rightarrow>
        (case vector_at data (genptr + 1) of Inl e \<Rightarrow> Inl (e, r) | Inr ptheta \<Rightarrow>
        (case vector_at data (genptr + 2) of Inl e \<Rightarrow> Inl (e, r) | Inr pb \<Rightarrow>
        (case vector_back data of Inl e \<Rightarrow> Inl (e, r) | Inr lastgene \<Rightarrow>
        (case set_joint_angles i (servo_phase i x pa ptheta pb lastgene) r of
           Inl er \<Rightarrow> Inl er
         | Inr r' \<Rightarrow> servo_loop n (i + 1) (genptr + 3) data x r')))))
      else Inr r)"
  by pat_completeness auto
termination
  by (relation "measure (\<lambda>(n, i, genptr, data, x, r). n - i)") auto

text \<open>\<^verbatim>\<open>v->update()\<close> draws the scene and changes nothing here. When the loop throws,
  the clock and the world have been advanced and the angles of the groups before the
  throw are set: the error carries that instance.\<close>

definition procedure ::
  "(real \<Rightarrow> robot \<Rightarrow> robot) \<Rightarrow> real list \<Rightarrow> real \<Rightarrow> simulation \<Rightarrow>
   (error \<times> simulation) + simulation" where
  "procedure next_step data step sim =
     (let x = float_add (sim_x sim) step;
          r = next_step step (sim_rob sim)
      in case servo_loop (servo_groups r) 0 0 data x r of
           Inl (e, r') \<Rightarrow> Inl (e, sim\<lparr>sim_x := x, sim_rob := r'\<rparr>)
         | Inr r' \<Rightarrow> Inr (sim\<lparr>sim_x := x, sim_rob := r'\<rparr>))"

subsection \<open>The stepping loop: \<^verbatim>\<open>run_conf\<close>\<close>

text \<open>
  The \<^verbatim>\<open>while\<close> loop may run forever, so it takes fuel: one unit per iteration, and
  \<open>None\<close> when an iteration is due and no fuel is left. \<open>run_loop n\<close> is a result exactly
  when the loop ends within \<open>n\<close> iterations. \<open>k\<close> is the number of the iteration,
  from 0; \<^verbatim>\<open>v->done()\<close> is asked only when the simulation is not headless. The guard
  compares floats: \<^verbatim>\<open>step_limit\<close> is converted.
\<close>

fun run_loop ::
  "nat \<Rightarrow> (nat \<Rightarrow> bool) \<Rightarrow> (real \<Rightarrow> robot \<Rightarrow> robot) \<Rightarrow> real list \<Rightarrow> real \<Rightarrow> int \<Rightarrow> nat \<Rightarrow>
   simulation \<Rightarrow> outcome option" where
  "run_loop 0 vdone next_step config step step_limit k sim =
     (if sim_x sim < float_round (real_of_int step_limit) then None
      else Some (Returned (- fst (pos (sim_rob sim))) sim))"
| "run_loop (Suc n) vdone next_step config step step_limit k sim =
     (if sim_x sim < float_round (real_of_int step_limit) then
        (if \<not> sim_headless sim \<and> vdone k then Some Exited
         else (case procedure next_step config step sim of
                 Inl (e, sim') \<Rightarrow> Some (Threw e sim')
               | Inr sim' \<Rightarrow> run_loop n vdone next_step config step step_limit (Suc k) sim'))
      else Some (Returned (- fst (pos (sim_rob sim))) sim))"

definition run_conf ::
  "nat \<Rightarrow> (nat \<Rightarrow> bool) \<Rightarrow> (real \<Rightarrow> robot \<Rightarrow> robot) \<Rightarrow> real list \<Rightarrow> real \<Rightarrow> int \<Rightarrow>
   simulation \<Rightarrow> outcome option" where
  "run_conf n vdone next_step config step step_limit sim =
     run_loop n vdone next_step config step step_limit 0 sim"

subsection \<open>Auxiliary functions of the statements\<close>

text \<open>
  These are not functions of the program. \<open>group_angle data x i\<close> is the angle, in
  radians, that the loop of \<^verbatim>\<open>procedure\<close> computes for joint group \<open>i\<close> from its
  genes \<open>data ! (3 * i)\<close>, \<open>data ! (3 * i + 1)\<close>, \<open>data ! (3 * i + 2)\<close>;
  \<open>group_calls\<close> lists the \<^verbatim>\<open>set_angle\<close> calls of the group, and
  \<open>apply_calls\<close> replays a list of calls on the servos.
\<close>

fun apply_calls :: "(nat \<times> real) list \<Rightarrow> real list \<Rightarrow> real list" where
  "apply_calls [] sv = sv"
| "apply_calls ((j, a) # cs) sv = apply_calls cs (sv[j := a])"

definition group_angle :: "real list \<Rightarrow> real \<Rightarrow> nat \<Rightarrow> real" where
  "group_angle data x i =
     servo_phase i x (data ! (3 * i)) (data ! (3 * i + 1)) (data ! (3 * i + 2)) (last data) * pi / 180"

definition group_calls :: "real list \<Rightarrow> real \<Rightarrow> nat \<Rightarrow> (nat \<times> real) list" where
  "group_calls data x i =
     (if i \<le> 1 then [(i, group_angle data x i)]
      else [(i, group_angle data x i), (i + 4, group_angle data x i)])"

text \<open>
  \<open>block_draws\<close> lists the draws of \<^verbatim>\<open>add_blocks\<close> in the order of the program: for
  each obstacle the amplitude from \<^verbatim>\<open>rsize\<close> and the two offsets from
  \<^verbatim>\<open>rlocation\<close>. \<open>block_of tilt (a, lx, ly)\<close> is the box that the loop body builds
  from one such triple.
\<close>

fun block_draws ::
  "(real \<Rightarrow> real \<Rightarrow> 'g \<Rightarrow> real \<times> 'g) \<Rightarrow> nat \<Rightarrow> int \<Rightarrow> 'g \<Rightarrow> (real \<times> real \<times> real) list" where
  "block_draws ur 0 sz g = []"
| "block_draws ur (Suc k) sz g =
    (let (a, g1) = ur 0.002 (real_of_int sz / 1000) g;
         (lx, g2) = ur (- (0.5 - 0.1)) (0.5 - 0.1) g1;
         (ly, g3) = ur (- (0.5 - 0.1)) (0.5 - 0.1) g2
     in (a, lx, ly) # block_draws ur k sz g3)"

definition block_of :: "real \<Rightarrow> real \<times> real \<times> real \<Rightarrow> box" where
  "block_of tilt d =
    (case d of (a, lx, ly) \<Rightarrow>
      (let bsize = a * exp (- (lx\<^sup>2 / (2 * 0.5\<^sup>2) + ly\<^sup>2 / (2 * 0.5\<^sup>2)))
       in \<lparr>box_pos = (lx - 0.4, ly, bsize / 2 + tan tilt * - (lx - 0.4)),
           box_mass = 10, box_w = bsize * 4, box_l = bsize * 4, box_h = bsize,
           box_rot = (0, - tilt, 0), box_fixed = True\<rparr>))"

declare servo_loop.simps [simp del]

section \<open>The rounding of the clock\<close>

lemma round_even_of_int [simp]: "round_even (of_int k) = k"
  by (simp add: round_even_def)

lemma round_even_0 [simp]: "round_even 0 = 0"
  by (simp add: round_even_def)

lemma round_even_Ints: "q \<in> \<int> \<Longrightarrow> real_of_int (round_even q) = q"
  by (auto elim!: Ints_cases)

lemma round_even_bounds: "\<lfloor>q\<rfloor> \<le> round_even q \<and> round_even q \<le> \<lceil>q\<rceil>"
  unfolding round_even_def Let_def by (auto simp: ceiling_altdef)

lemma round_even_mono: "q \<le> q' \<Longrightarrow> round_even q \<le> round_even q'"
proof -
  assume le: "q \<le> q'"
  have fl: "\<lfloor>q\<rfloor> \<le> \<lfloor>q'\<rfloor>" using le by (rule floor_mono)
  show ?thesis
  proof (cases "\<lfloor>q\<rfloor> = \<lfloor>q'\<rfloor>")
    case True
    then show ?thesis using le unfolding round_even_def Let_def by auto
  next
    case False
    then have "\<lfloor>q\<rfloor> + 1 \<le> \<lfloor>q'\<rfloor>" using fl by simp
    moreover have "round_even q \<le> \<lfloor>q\<rfloor> + 1" unfolding round_even_def Let_def by auto
    moreover have "\<lfloor>q'\<rfloor> \<le> round_even q'" using round_even_bounds by blast
    ultimately show ?thesis by linarith
  qed
qed

lemma round_even_minus: "round_even (- q) = - round_even q"
proof (cases "q \<in> \<int>")
  case True
  then obtain k where "q = of_int k" by (auto elim: Ints_cases)
  then have "- q = of_int (- k)" by simp
  then show ?thesis using \<open>q = of_int k\<close> by (simp only: round_even_of_int)
next
  case False
  have ne: "q \<noteq> of_int \<lfloor>q\<rfloor>"
  proof
    assume "q = of_int \<lfloor>q\<rfloor>"
    then have "q \<in> \<int>" by (rule ssubst) (rule Ints_of_int)
    with False show False ..
  qed
  then have fl: "\<lfloor>- q\<rfloor> = - \<lfloor>q\<rfloor> - 1"
    by (simp add: floor_minus ceiling_altdef)
  from ne have d: "0 < q - of_int \<lfloor>q\<rfloor>"
    using of_int_floor_le [of q] by linarith
  show ?thesis
    unfolding round_even_def Let_def fl using d by auto
qed

lemma round_even_le_int: "q \<le> of_int k \<Longrightarrow> round_even q \<le> k"
  using round_even_mono [of q "of_int k"] by simp

lemma round_even_ge_int: "of_int k \<le> q \<Longrightarrow> k \<le> round_even q"
  using round_even_mono [of "of_int k" q] by simp

lemma float_ulp_pos [simp]: "0 < float_ulp r"
  by (simp add: float_ulp_def)

lemma float_ulp_nonneg [simp]: "0 \<le> float_ulp r"
  by (simp add: float_ulp_def)

lemma float_ulp_neq0 [simp]: "float_ulp r \<noteq> 0"
  by (simp add: float_ulp_def)

lemma float_ulp_24: "2 powr 24 * float_ulp r = 2 powr real_of_int (float_exp r + 1)"
proof -
  have "2 powr 24 * float_ulp r = 2 powr (24 + real_of_int (float_exp r - 23))"
    unfolding float_ulp_def by (rule powr_add [symmetric])
  also have "24 + real_of_int (float_exp r - 23) = real_of_int (float_exp r + 1)" by simp
  finally show ?thesis .
qed

lemma float_ulp_23: "2 powr 23 * float_ulp r = 2 powr real_of_int (float_exp r)"
proof -
  have "2 powr 23 * float_ulp r = 2 powr (23 + real_of_int (float_exp r - 23))"
    unfolding float_ulp_def by (rule powr_add [symmetric])
  also have "23 + real_of_int (float_exp r - 23) = real_of_int (float_exp r)" by simp
  finally show ?thesis .
qed

lemma float_exp_minus [simp]: "float_exp (- r) = float_exp r"
  by (simp add: float_exp_def)

lemma float_ulp_minus [simp]: "float_ulp (- r) = float_ulp r"
  by (simp add: float_ulp_def)

lemma float_round_minus: "float_round (- r) = - float_round r"
  by (simp add: float_round_def round_even_minus)

lemma float_round_0 [simp]: "float_round 0 = 0"
  by (simp add: float_round_def)

lemma float_round_nonneg: "0 \<le> r \<Longrightarrow> 0 \<le> float_round r"
proof -
  assume "0 \<le> r"
  then have "real_of_int 0 \<le> r / float_ulp r" by (simp add: divide_nonneg_pos)
  then have "0 \<le> round_even (r / float_ulp r)" by (rule round_even_ge_int)
  then show ?thesis by (simp add: float_round_def)
qed

lemma float_exp_upper: "0 < r \<Longrightarrow> r < 2 powr real_of_int (float_exp r + 1)"
proof -
  assume r: "0 < r"
  have "log 2 r < real_of_int (\<lfloor>log 2 r\<rfloor> + 1)" by linarith
  also have "\<dots> \<le> real_of_int (float_exp r + 1)" using r by (simp add: float_exp_def)
  finally have "2 powr log 2 r < 2 powr real_of_int (float_exp r + 1)" by simp
  then show ?thesis using r by simp
qed

lemma float_exp_lower:
  "0 < r \<Longrightarrow> - 126 < float_exp r \<Longrightarrow> 2 powr real_of_int (float_exp r) \<le> r"
proof -
  assume r: "0 < r" and e: "- 126 < float_exp r"
  then have "float_exp r = \<lfloor>log 2 r\<rfloor>" by (simp add: float_exp_def max_def split: if_splits)
  then have "real_of_int (float_exp r) \<le> log 2 r" by simp
  then have "2 powr real_of_int (float_exp r) \<le> 2 powr log 2 r" by simp
  then show ?thesis using r by simp
qed

lemma float_exp_mono: "0 < r \<Longrightarrow> r \<le> s \<Longrightarrow> float_exp r \<le> float_exp s"
proof -
  assume r: "0 < r" and le: "r \<le> s"
  then have "log 2 r \<le> log 2 s" by simp
  then have "\<lfloor>log 2 r\<rfloor> \<le> \<lfloor>log 2 s\<rfloor>" by (rule floor_mono)
  then show ?thesis using r le by (simp add: float_exp_def)
qed

lemma float_round_upper:
  assumes "0 < r"
  shows "float_round r \<le> 2 powr real_of_int (float_exp r + 1)"
proof -
  have "r < 2 powr 24 * float_ulp r"
    using float_exp_upper [OF assms] by (simp only: float_ulp_24)
  then have "r / float_ulp r < 2 powr 24" by (simp add: pos_divide_less_eq)
  then have "r / float_ulp r \<le> real_of_int (2 ^ 24)" by simp
  then have "round_even (r / float_ulp r) \<le> 2 ^ 24" by (rule round_even_le_int)
  then have "real_of_int (round_even (r / float_ulp r)) \<le> 2 powr 24" by simp
  then have "float_round r \<le> 2 powr 24 * float_ulp r"
    unfolding float_round_def by (intro mult_right_mono) simp_all
  then show ?thesis by (simp only: float_ulp_24)
qed

lemma float_round_lower:
  assumes "0 < r" and "- 126 < float_exp r"
  shows "2 powr real_of_int (float_exp r) \<le> float_round r"
proof -
  have "2 powr 23 * float_ulp r \<le> r"
    using float_exp_lower [OF assms] by (simp only: float_ulp_23)
  then have "2 powr 23 \<le> r / float_ulp r" by (simp add: pos_le_divide_eq)
  then have "real_of_int (2 ^ 23) \<le> r / float_ulp r" by simp
  then have "2 ^ 23 \<le> round_even (r / float_ulp r)" by (rule round_even_ge_int)
  then have "2 powr 23 \<le> real_of_int (round_even (r / float_ulp r))" by simp
  then have "2 powr 23 * float_ulp r \<le> float_round r"
    unfolding float_round_def by (intro mult_right_mono) simp_all
  then show ?thesis by (simp only: float_ulp_23)
qed

lemma float_round_mono_pos:
  assumes "0 < r" and "r \<le> s"
  shows "float_round r \<le> float_round s"
proof (cases "float_exp r = float_exp s")
  case True
  then have u: "float_ulp r = float_ulp s" by (simp add: float_ulp_def)
  have "r / float_ulp s \<le> s / float_ulp s"
    using assms(2) by (intro divide_right_mono) simp_all
  then have "round_even (r / float_ulp s) \<le> round_even (s / float_ulp s)"
    by (rule round_even_mono)
  then show ?thesis unfolding float_round_def u by (intro mult_right_mono) simp_all
next
  case False
  then have lt: "float_exp r < float_exp s" using float_exp_mono [OF assms] by simp
  have "- 126 \<le> float_exp r" by (simp add: float_exp_def)
  then have s: "- 126 < float_exp s" using lt by simp
  have "float_round r \<le> 2 powr real_of_int (float_exp r + 1)"
    using assms(1) by (rule float_round_upper)
  also have "\<dots> \<le> 2 powr real_of_int (float_exp s)" using lt by simp
  also have "\<dots> \<le> float_round s" using assms s by (intro float_round_lower) auto
  finally show ?thesis .
qed

lemma float_round_mono: "r \<le> s \<Longrightarrow> float_round r \<le> float_round s"
proof -
  assume le: "r \<le> s"
  consider "0 < r" | "r \<le> 0" "0 \<le> s" | "s < 0" by linarith
  then show ?thesis
  proof cases
    case 1
    then show ?thesis using le by (rule float_round_mono_pos)
  next
    case 2
    have "float_round r = - float_round (- r)" by (simp add: float_round_minus)
    moreover have "0 \<le> float_round (- r)" using 2(1) by (intro float_round_nonneg) simp
    moreover have "0 \<le> float_round s" using 2(2) by (rule float_round_nonneg)
    ultimately show ?thesis by simp
  next
    case 3
    then have "float_round (- s) \<le> float_round (- r)"
      using le by (intro float_round_mono_pos) auto
    then show ?thesis by (simp add: float_round_minus)
  qed
qed

lemma float_round_exact: "r / float_ulp r \<in> \<int> \<Longrightarrow> float_round r = r"
  by (simp add: float_round_def round_even_Ints)

lemma float_round_int:
  assumes "r \<in> \<int>" and "\<bar>r\<bar> \<le> 2 ^ 24"
  shows "float_round r = r"
proof (cases "r = 0")
  case True
  then show ?thesis by simp
next
  case False
  from assms(1) obtain k where k: "r = of_int k" by (auto elim: Ints_cases)
  with False have "1 \<le> \<bar>k\<bar>" by simp
  then have a: "1 \<le> \<bar>r\<bar>" using k by simp
  then have "0 \<le> log 2 \<bar>r\<bar>" by simp
  then have e0: "0 \<le> \<lfloor>log 2 \<bar>r\<bar>\<rfloor>" by simp
  then have e: "float_exp r = \<lfloor>log 2 \<bar>r\<bar>\<rfloor>" by (simp add: float_exp_def)
  have "log 2 \<bar>r\<bar> \<le> log 2 (2 powr 24)" using a assms(2) by (intro log_mono) auto
  also have "\<dots> = 24" by (rule log_powr_cancel) simp_all
  finally have "\<lfloor>log 2 \<bar>r\<bar>\<rfloor> \<le> \<lfloor>24::real\<rfloor>" by (rule floor_mono)
  then have e24: "float_exp r \<le> 24" unfolding e by simp
  show ?thesis
  proof (cases "float_exp r = 24")
    case True
    have "2 powr real_of_int (float_exp \<bar>r\<bar>) \<le> \<bar>r\<bar>"
      using a True by (intro float_exp_lower) (auto simp: float_exp_def)
    then have "2 ^ 24 \<le> \<bar>r\<bar>" using True by (simp add: float_exp_def)
    with assms(2) have "\<bar>r\<bar> = 2 ^ 24" by simp
    then have "r = 2 ^ 24 \<or> r = - (2 ^ 24)" by linarith
    moreover have "float_ulp r = 2" using True by (simp add: float_ulp_def)
    ultimately have "r / float_ulp r = of_int (2 ^ 23) \<or> r / float_ulp r = of_int (- (2 ^ 23))"
      by auto
    then have "r / float_ulp r \<in> \<int>" by (metis Ints_of_int)
    then show ?thesis by (rule float_round_exact)
  next
    case False
    have b: "0 \<le> float_exp r" "float_exp r \<le> 23"
      using False e24 e0 unfolding e by linarith+
    have "float_ulp r = 2 powr - real (nat (23 - float_exp r))"
      using b by (simp add: float_ulp_def)
    also have "\<dots> = 1 / 2 ^ nat (23 - float_exp r)"
      by (simp add: powr_minus powr_realpow inverse_eq_divide)
    finally have "r / float_ulp r = of_int (k * 2 ^ nat (23 - float_exp r))"
      using k by simp
    then have "r / float_ulp r \<in> \<int>" by (metis Ints_of_int)
    then show ?thesis by (rule float_round_exact)
  qed
qed

lemma float_add_int:
  "a \<in> \<int> \<Longrightarrow> b \<in> \<int> \<Longrightarrow> \<bar>a + b\<bar> \<le> 2 ^ 24 \<Longrightarrow> float_add a b = a + b"
  by (simp add: float_add_def float_round_int)

lemma float_round_absorb: "float_round (2 ^ 24 + 1) = 2 ^ 24"
proof -
  have "\<lfloor>log 2 (16777217::real)\<rfloor> = 24"
    by (simp add: floor_log_eq_powr_iff)
  then have u: "float_ulp 16777217 = 2"
    by (simp add: float_ulp_def float_exp_def)
  have "round_even (16777217 / 2) = 8388608"
    by (simp add: round_even_def Let_def)
  then show ?thesis
    by (simp add: float_round_def u)
qed

lemma float_round_16777218: "float_round 16777218 = 16777218"
proof -
  have "\<lfloor>log 2 (16777218::real)\<rfloor> = 24"
    by (simp add: floor_log_eq_powr_iff)
  then have u: "float_ulp 16777218 = 2"
    by (simp add: float_ulp_def float_exp_def)
  have "round_even (16777218 / 2) = 8388609"
    by (simp add: round_even_def Let_def)
  then show ?thesis
    by (simp add: float_round_def u)
qed

lemma float_count_step:
  assumes "c \<in> \<int>" and "0 \<le> c" and "c \<le> 2 ^ 24"
  shows "float_add c 1 \<in> \<int> \<and> 0 \<le> float_add c 1 \<and> float_add c 1 \<le> 2 ^ 24"
proof -
  from assms obtain k where k: "c = of_int k" and k0: "0 \<le> k" and k24: "k \<le> 2 ^ 24"
    by (auto elim!: Ints_cases)
  show ?thesis
  proof (cases "k = 2 ^ 24")
    case True
    with k have c: "c = 2 ^ 24" by simp
    have "float_add c 1 = 2 ^ 24"
      unfolding float_add_def c by (rule float_round_absorb)
    then show ?thesis by simp
  next
    case False
    then have le: "k + 1 \<le> 2 ^ 24" using k24 by simp
    then have "\<bar>real_of_int (k + 1)\<bar> \<le> 2 ^ 24" using k0 by (simp add: abs_if)
    then have "float_round (real_of_int (k + 1)) = real_of_int (k + 1)"
      by (intro float_round_int) simp_all
    then have "float_add c 1 = real_of_int (k + 1)"
      unfolding float_add_def k by simp
    moreover have "real_of_int (k + 1) \<le> 2 ^ 24"
      using of_int_le_iff [of "k + 1" "2 ^ 24", where 'a = real] le by simp
    ultimately show ?thesis using k0 by simp
  qed
qed

section \<open>The loop of \<^verbatim>\<open>procedure\<close>\<close>

lemma apply_calls_append: "apply_calls (cs @ ds) sv = apply_calls ds (apply_calls cs sv)"
  by (induction cs sv rule: apply_calls.induct) simp_all

lemma length_apply_calls [simp]: "length (apply_calls cs sv) = length sv"
  by (induction cs sv rule: apply_calls.induct) simp_all

lemma servo_groups_eq: "length (servos r) = n + 4 \<Longrightarrow> n + 4 < 2 ^ 64 \<Longrightarrow> servo_groups r = n"
  by (simp add: servo_groups_def)

lemma servo_loop_done: "\<not> i < n \<Longrightarrow> servo_loop n i genptr data x r = Inr r"
  by (subst servo_loop.simps) simp

lemma set_joint_angles_ok:
  assumes "i + 4 < length (servos r)" "i + 4 < 2 ^ 64"
  shows "set_joint_angles i ph r =
    Inr (r\<lparr>servos := apply_calls (if i \<le> 1 then [(i, ph * pi / 180)] else [(i, ph * pi / 180), (i + 4, ph * pi / 180)]) (servos r),
          angle_calls := angle_calls r @ (if i \<le> 1 then [(i, ph * pi / 180)] else [(i, ph * pi / 180), (i + 4, ph * pi / 180)])\<rparr>)"
  using assms by (simp add: set_joint_angles_def set_angle_def)

lemma servo_loop_step:
  assumes "i < n" "3 * i + 2 < length data" "i + 4 < length (servos r)" "i + 4 < 2 ^ 64"
  shows "servo_loop n i (3 * i) data x r =
     servo_loop n (Suc i) (3 * Suc i) data x
       (r\<lparr>servos := apply_calls (group_calls data x i) (servos r),
          angle_calls := angle_calls r @ group_calls data x i\<rparr>)"
proof -
  have ne: "data \<noteq> []" using assms(2) by auto
  show ?thesis
    using assms(1,2) ne
    by (subst servo_loop.simps)
      (simp add: vector_at_def vector_back_def set_joint_angles_ok [OF assms(3,4)]
         group_calls_def group_angle_def add.commute)
qed

lemma servo_loop_ok:
  assumes "n + 4 \<le> length (servos r)" "n + 4 < 2 ^ 64" "3 * n \<le> length data" "i \<le> n"
  shows "servo_loop n i (3 * i) data x r =
     Inr (r\<lparr>servos := apply_calls (concat (map (group_calls data x) [i..<n])) (servos r),
           angle_calls := angle_calls r @ concat (map (group_calls data x) [i..<n])\<rparr>)"
  using assms
proof (induction "n - i" arbitrary: i r)
  case 0
  then show ?case by (simp add: servo_loop_done)
next
  case (Suc d)
  then have lt: "i < n" by simp
  let ?r = "r\<lparr>servos := apply_calls (group_calls data x i) (servos r),
          angle_calls := angle_calls r @ group_calls data x i\<rparr>"
  have step: "servo_loop n i (3 * i) data x r = servo_loop n (Suc i) (3 * Suc i) data x ?r"
    using lt Suc.prems by (intro servo_loop_step) auto
  have ih: "servo_loop n (Suc i) (3 * Suc i) data x ?r =
     Inr (?r\<lparr>servos := apply_calls (concat (map (group_calls data x) [Suc i..<n])) (servos ?r),
           angle_calls := angle_calls ?r @ concat (map (group_calls data x) [Suc i..<n])\<rparr>)"
    using Suc.hyps(2) lt Suc.prems by (intro Suc.hyps(1)) auto
  show ?case
    unfolding step ih using lt by (simp add: upt_conv_Cons apply_calls_append)
qed

lemma servo_loop_short:
  assumes "n + 4 \<le> length (servos r)" "n + 4 < 2 ^ 64" "length data < 3 * n"
    "3 * i \<le> length data"
  shows "servo_loop n i (3 * i) data x r =
     Inl (OutOfRange,
          r\<lparr>servos := apply_calls (concat (map (group_calls data x) [i..<length data div 3]))
                        (servos r),
            angle_calls := angle_calls r @
                        concat (map (group_calls data x) [i..<length data div 3])\<rparr>)"
  using assms
proof (induction "n - i" arbitrary: i r)
  case 0
  then show ?case by simp
next
  case (Suc d)
  then have lt: "i < n" by simp
  show ?case
  proof (cases "3 * i + 2 < length data")
    case True
    then have im: "i < length data div 3" by simp
    let ?r = "r\<lparr>servos := apply_calls (group_calls data x i) (servos r),
          angle_calls := angle_calls r @ group_calls data x i\<rparr>"
    have step: "servo_loop n i (3 * i) data x r = servo_loop n (Suc i) (3 * Suc i) data x ?r"
      using lt True Suc.prems by (intro servo_loop_step) auto
    have ih: "servo_loop n (Suc i) (3 * Suc i) data x ?r =
       Inl (OutOfRange,
          ?r\<lparr>servos := apply_calls (concat (map (group_calls data x) [Suc i..<length data div 3]))
                        (servos ?r),
            angle_calls := angle_calls ?r @
                        concat (map (group_calls data x) [Suc i..<length data div 3])\<rparr>)"
      using Suc.hyps(2) lt True Suc.prems by (intro Suc.hyps(1)) auto
    show ?thesis
      unfolding step ih using im by (simp add: upt_conv_Cons apply_calls_append)
  next
    case False
    then have "\<not> i < length data div 3" by simp
    then have e: "[i..<length data div 3] = []" by simp
    show ?thesis
      unfolding e using lt False
      by (subst servo_loop.simps) (auto simp: vector_at_def split: sum.splits)
  qed
qed

lemma apply_group_calls_nth:
  "n + 4 < length sv \<Longrightarrow>
   apply_calls (group_calls data x n) sv ! k =
     (if k = n \<or> (1 < n \<and> k = n + 4) then group_angle data x n else sv ! k)"
  by (auto simp: group_calls_def nth_list_update)

lemma apply_calls_groups_nth:
  assumes "n + 4 \<le> length sv" "k < n"
  shows "apply_calls (concat (map (group_calls data x) [0..<n])) sv ! k = group_angle data x k"
  using assms
proof (induction n)
  case 0
  then show ?case by simp
next
  case (Suc n)
  let ?sv = "apply_calls (concat (map (group_calls data x) [0..<n])) sv"
  show ?case
  proof (cases "k = n")
    case True
    then show ?thesis using Suc.prems
      by (simp add: apply_calls_append apply_group_calls_nth)
  next
    case False
    then have "?sv ! k = group_angle data x k" using Suc by simp
    then show ?thesis using False Suc.prems
      by (simp add: apply_calls_append apply_group_calls_nth)
  qed
qed


lemma procedure_ok:
  assumes "length (servos (next_step step (sim_rob sim))) = n + 4" "n + 4 < 2 ^ 64"
    "3 * n \<le> length data"
  shows "procedure next_step data step sim =
    Inr (sim\<lparr>sim_x := float_add (sim_x sim) step,
             sim_rob := (next_step step (sim_rob sim))
               \<lparr>servos := apply_calls (concat (map (group_calls data (float_add (sim_x sim) step)) [0..<n]))
                            (servos (next_step step (sim_rob sim))),
                angle_calls := angle_calls (next_step step (sim_rob sim)) @
                            concat (map (group_calls data (float_add (sim_x sim) step)) [0..<n])\<rparr>\<rparr>)"
proof -
  have g: "servo_groups (next_step step (sim_rob sim)) = n"
    using assms(1,2) by (rule servo_groups_eq)
  have "servo_loop n 0 (3 * 0) data (float_add (sim_x sim) step) (next_step step (sim_rob sim)) =
     Inr ((next_step step (sim_rob sim))
               \<lparr>servos := apply_calls (concat (map (group_calls data (float_add (sim_x sim) step)) [0..<n]))
                            (servos (next_step step (sim_rob sim))),
                angle_calls := angle_calls (next_step step (sim_rob sim)) @
                            concat (map (group_calls data (float_add (sim_x sim) step)) [0..<n])\<rparr>)"
    using assms by (intro servo_loop_ok) auto
  then show ?thesis by (simp add: procedure_def Let_def g)
qed

lemma procedure_short:
  assumes "length (servos (next_step step (sim_rob sim))) = n + 4" "n + 4 < 2 ^ 64"
    "length data < 3 * n"
  shows "procedure next_step data step sim =
    Inl (OutOfRange,
         sim\<lparr>sim_x := float_add (sim_x sim) step,
             sim_rob := (next_step step (sim_rob sim))
               \<lparr>servos := apply_calls (concat (map (group_calls data (float_add (sim_x sim) step))
                                                   [0..<length data div 3]))
                            (servos (next_step step (sim_rob sim))),
                angle_calls := angle_calls (next_step step (sim_rob sim)) @
                            concat (map (group_calls data (float_add (sim_x sim) step))
                                      [0..<length data div 3])\<rparr>\<rparr>)"
proof -
  have g: "servo_groups (next_step step (sim_rob sim)) = n"
    using assms(1,2) by (rule servo_groups_eq)
  have "servo_loop n 0 (3 * 0) data (float_add (sim_x sim) step) (next_step step (sim_rob sim)) =
    Inl (OutOfRange,
         (next_step step (sim_rob sim))
               \<lparr>servos := apply_calls (concat (map (group_calls data (float_add (sim_x sim) step))
                                                   [0..<length data div 3]))
                            (servos (next_step step (sim_rob sim))),
                angle_calls := angle_calls (next_step step (sim_rob sim)) @
                            concat (map (group_calls data (float_add (sim_x sim) step))
                                      [0..<length data div 3])\<rparr>)"
    using assms by (intro servo_loop_short) auto
  then show ?thesis by (simp add: procedure_def Let_def g)
qed

section \<open>The loop of \<^verbatim>\<open>run_conf\<close>\<close>

lemma procedure_frame:
  assumes "procedure next_step data step sim = Inr sim'"
  shows "sim_x sim' = float_add (sim_x sim) step" and "sim_headless sim' = sim_headless sim"
  using assms by (auto simp: procedure_def Let_def split: sum.splits prod.splits)

lemma run_loop_Suc_step:
  assumes "sim_x sim < float_round (real_of_int step_limit)" and "sim_headless sim \<or> \<not> vdone k"
    and "procedure next_step config step sim = Inr sim1"
  shows "run_loop (Suc n) vdone next_step config step step_limit k sim =
         run_loop n vdone next_step config step step_limit (Suc k) sim1"
  using assms by auto

lemma run_loop_returned:
  "run_loop n vdone next_step config step step_limit k sim = Some (Returned f sim') \<Longrightarrow>
   f = - fst (pos (sim_rob sim')) \<and> \<not> sim_x sim' < float_round (real_of_int step_limit)"
proof (induction n arbitrary: k sim)
  case 0
  then show ?case by (auto split: if_splits)
next
  case (Suc n)
  then show ?case by (auto split: if_splits sum.splits prod.splits)
qed

lemma run_loop_None_unfold:
  assumes "run_loop (Suc n) vdone next_step config step step_limit k sim = None"
  shows "sim_x sim < float_round (real_of_int step_limit) \<and> (sim_headless sim \<or> \<not> vdone k) \<and>
     (\<exists>sim1. procedure next_step config step sim = Inr sim1 \<and>
        run_loop n vdone next_step config step step_limit (Suc k) sim1 = None)"
  using assms by (auto split: if_splits sum.splits prod.splits)

lemma run_loop_exact_funpow:
  assumes "run_loop (Suc n) vdone next_step config step step_limit k sim = Some (Returned f sim')"
    and "run_loop n vdone next_step config step step_limit k sim = None"
  shows "sim_x sim' = ((\<lambda>y. float_add y step) ^^ Suc n) (sim_x sim)"
  using assms
proof (induction n arbitrary: k sim)
  case 0
  from 0(2) have lt: "sim_x sim < float_round (real_of_int step_limit)" by (auto split: if_splits)
  with 0(1) obtain sim1 where p: "procedure next_step config step sim = Inr sim1"
    and r: "run_loop 0 vdone next_step config step step_limit (Suc k) sim1 = Some (Returned f sim')"
    by (auto split: if_splits sum.splits prod.splits)
  from r have "sim' = sim1" by (auto split: if_splits)
  with procedure_frame(1) [OF p] show ?case by simp
next
  case (Suc n)
  from run_loop_None_unfold [OF Suc.prems(2)] obtain sim1 where
    lt: "sim_x sim < float_round (real_of_int step_limit)" and hd: "sim_headless sim \<or> \<not> vdone k"
    and p: "procedure next_step config step sim = Inr sim1"
    and none: "run_loop n vdone next_step config step step_limit (Suc k) sim1 = None"
    by blast
  have some: "run_loop (Suc n) vdone next_step config step step_limit (Suc k) sim1 =
      Some (Returned f sim')"
    using Suc.prems(1)
      run_loop_Suc_step [where vdone = vdone and k = k and next_step = next_step
        and n = "Suc n", OF lt hd p]
    by simp
  have "sim_x sim' = ((\<lambda>y. float_add y step) ^^ Suc n) (sim_x sim1)"
    using some none by (rule Suc.IH)
  then show ?case
    unfolding procedure_frame(1) [OF p] by (simp only: funpow_Suc_right o_apply)
qed

lemma run_loop_fuel_mono:
  "run_loop n vdone next_step config step step_limit k sim = Some out \<Longrightarrow>
   run_loop (n + d) vdone next_step config step step_limit k sim = Some out"
proof (induction n arbitrary: k sim)
  case 0
  then show ?case by (cases d) (auto split: if_splits)
next
  case (Suc n)
  then show ?case by (auto split: if_splits sum.splits prod.splits)
qed

lemma run_loop_None_below:
  assumes "run_loop n vdone next_step config step step_limit k sim = None" and "j \<le> n"
  shows "run_loop j vdone next_step config step step_limit k sim = None"
proof (rule ccontr)
  assume "run_loop j vdone next_step config step step_limit k sim \<noteq> None"
  then obtain out where "run_loop j vdone next_step config step step_limit k sim = Some out" by auto
  from run_loop_fuel_mono [OF this, of "n - j"] assms show False by simp
qed

lemma run_loop_exact_clock:
  assumes "run_loop m vdone next_step config step step_limit k sim = Some (Returned f sim')"
    and "\<forall>j<m. run_loop j vdone next_step config step step_limit k sim = None"
  shows "sim_x sim' = ((\<lambda>y. float_add y step) ^^ m) (sim_x sim)"
proof (cases m)
  case 0
  with assms(1) show ?thesis by (auto split: if_splits)
next
  case (Suc n)
  with assms have "run_loop (Suc n) vdone next_step config step step_limit k sim =
      Some (Returned f sim')"
    and "run_loop n vdone next_step config step step_limit k sim = None" by auto
  from run_loop_exact_funpow [OF this] Suc show ?thesis by simp
qed

lemma run_loop_numeral:
  "run_loop (numeral v) vdone next_step config step step_limit k sim =
     (if sim_x sim < float_round (real_of_int step_limit) then
        (if \<not> sim_headless sim \<and> vdone k then Some Exited
         else (case procedure next_step config step sim of
                 Inl (e, sim') \<Rightarrow> Some (Threw e sim')
               | Inr sim' \<Rightarrow>
                   run_loop (pred_numeral v) vdone next_step config step step_limit (Suc k) sim'))
      else Some (Returned (- fst (pos (sim_rob sim))) sim))"
  by (simp add: numeral_eq_Suc)

lemma procedure_wellformed:
  assumes "\<forall>t r. length (servos (next_step t r)) = length (servos r)"
    and "length (servos (sim_rob sim)) = n + 4" and "n + 4 < 2 ^ 64" and "3 * n \<le> length config"
  shows "\<exists>sim1. procedure next_step config step sim = Inr sim1
    \<and> length (servos (sim_rob sim1)) = n + 4
    \<and> sim_headless sim1 = sim_headless sim \<and> sim_x sim1 = float_add (sim_x sim) step"
proof -
  have len: "length (servos (next_step step (sim_rob sim))) = n + 4"
    using assms(1,2) by simp
  show ?thesis
    by (simp add: procedure_ok [where next_step = next_step, OF len assms(3,4)] len)
qed

lemma run_loop_wellformed_returns:
  assumes "\<forall>t r. length (servos (next_step t r)) = length (servos r)"
    and "n + 4 < 2 ^ 64" and "3 * n \<le> length config"
  shows "length (servos (sim_rob sim)) = n + 4 \<Longrightarrow> sim_headless sim \<or> (\<forall>k. \<not> vdone k) \<Longrightarrow>
    run_loop fuel vdone next_step config step step_limit k sim = Some out \<Longrightarrow>
    \<exists>sim'. out = Returned (- fst (pos (sim_rob sim'))) sim'"
proof (induction fuel arbitrary: sim k)
  case 0
  then show ?case by (auto split: if_splits)
next
  case (Suc fuel)
  from procedure_wellformed [OF assms(1) Suc.prems(1) assms(2,3)] obtain sim1 where
    p: "procedure next_step config step sim = Inr sim1"
    and l: "length (servos (sim_rob sim1)) = n + 4"
    and h: "sim_headless sim1 = sim_headless sim" by blast
  show ?case
  proof (cases "sim_x sim < float_round (real_of_int step_limit)")
    case True
    then have "run_loop fuel vdone next_step config step step_limit (Suc k) sim1 = Some out"
      using Suc.prems(2,3) p by auto
    moreover have "sim_headless sim1 \<or> (\<forall>k. \<not> vdone k)" using Suc.prems(2) h by simp
    ultimately show ?thesis using Suc.IH l by blast
  next
    case False
    then show ?thesis using Suc.prems(3) by auto
  qed
qed

lemma run_loop_None_iff:
  assumes "\<forall>t r. length (servos (next_step t r)) = length (servos r)"
    and "n + 4 < 2 ^ 64" and "3 * n \<le> length config"
  shows "length (servos (sim_rob sim)) = n + 4 \<Longrightarrow> sim_headless sim \<or> (\<forall>k. \<not> vdone k) \<Longrightarrow>
    run_loop fuel vdone next_step config step step_limit k sim = None \<longleftrightarrow>
    (\<forall>j\<le>fuel. ((\<lambda>y. float_add y step) ^^ j) (sim_x sim) < float_round (real_of_int step_limit))"
proof (induction fuel arbitrary: sim k)
  case 0
  then show ?case by simp
next
  case (Suc fuel)
  from procedure_wellformed [OF assms(1) Suc.prems(1) assms(2,3)] obtain sim1 where
    p: "procedure next_step config step sim = Inr sim1"
    and l: "length (servos (sim_rob sim1)) = n + 4"
    and h: "sim_headless sim1 = sim_headless sim"
    and x: "sim_x sim1 = float_add (sim_x sim) step" by blast
  have h1: "sim_headless sim1 \<or> (\<forall>k. \<not> vdone k)" using Suc.prems(2) h by simp
  have ih: "run_loop fuel vdone next_step config step step_limit (Suc k) sim1 = None \<longleftrightarrow>
    (\<forall>j\<le>fuel. ((\<lambda>y. float_add y step) ^^ j) (float_add (sim_x sim) step)
        < float_round (real_of_int step_limit))"
    using Suc.IH [OF l h1] unfolding x .
  have shift: "(\<forall>j\<le>Suc fuel. ((\<lambda>y. float_add y step) ^^ j) (sim_x sim)
        < float_round (real_of_int step_limit)) \<longleftrightarrow>
    sim_x sim < float_round (real_of_int step_limit) \<and>
    (\<forall>j\<le>fuel. ((\<lambda>y. float_add y step) ^^ j) (float_add (sim_x sim) step)
        < float_round (real_of_int step_limit))"
  proof -
    have "(\<forall>j\<le>Suc fuel. P j) \<longleftrightarrow> P 0 \<and> (\<forall>j\<le>fuel. P (Suc j))" for P
      by (metis Suc_le_mono le0 not0_implies_Suc)
    then show ?thesis by (simp only: funpow_Suc_right o_apply funpow_0)
  qed
  show ?case
    unfolding shift using Suc.prems(2) p ih by auto
qed

lemma float_clock_nonincreasing:
  assumes "step \<le> 0" and "float_round x0 = x0"
  shows "((\<lambda>y. float_add y step) ^^ j) x0 \<le> x0"
proof (induction j)
  case 0
  then show ?case by simp
next
  case (Suc j)
  have "((\<lambda>y. float_add y step) ^^ j) x0 + step \<le> x0" using Suc assms(1) by simp
  then have "float_round (((\<lambda>y. float_add y step) ^^ j) x0 + step) \<le> float_round x0"
    by (rule float_round_mono)
  then show ?case by (simp add: float_add_def assms(2))
qed

section \<open>The loop of \<^verbatim>\<open>add_blocks\<close>\<close>

lemma add_blocks_loop_frame:
  "sim_x (add_blocks_loop ur k sz g sim) = sim_x sim \<and>
   sim_rob (add_blocks_loop ur k sz g sim) = sim_rob sim \<and>
   sim_tilt (add_blocks_loop ur k sz g sim) = sim_tilt sim \<and>
   sim_headless (add_blocks_loop ur k sz g sim) = sim_headless sim \<and>
   sim_env (add_blocks_loop ur k sz g sim) = sim_env sim"
  by (induction k arbitrary: g sim) (simp_all add: Let_def split: prod.splits)

lemma length_block_draws [simp]: "length (block_draws ur k sz g) = k"
  by (induction k arbitrary: g) (simp_all add: Let_def split: prod.splits)

lemma add_blocks_loop_boxes:
  "sim_boxes (add_blocks_loop ur k sz g sim) =
     sim_boxes sim @ map (block_of (sim_tilt sim)) (block_draws ur k sz g) \<and>
   sim_ground (add_blocks_loop ur k sz g sim) =
     sim_ground sim @ map (block_of (sim_tilt sim)) (block_draws ur k sz g)"
  by (induction k arbitrary: g sim)
    (simp_all add: Let_def block_of_def algebra_simps split: prod.splits)

section \<open>Properties of the controller\<close>

text \<open>
  C4. Outer-joint amplification: at the joint group indices 6 and 9, and at no other
  index, the phase that is emitted is 1.8 times the phase of a group with the same genes
  at the same clock whose index \<open>j\<close> is not amplified. The factor multiplies the whole
  phase, bias included, since the phase at \<open>j\<close> contains the bias.
\<close>

theorem outer_joint_amplification:
  "j \<noteq> 6 \<Longrightarrow> j \<noteq> 9 \<Longrightarrow>
   servo_phase i x pa ptheta pb lastgene =
     (if i = 6 \<or> i = 9 then 1.8 * servo_phase j x pa ptheta pb lastgene
      else servo_phase j x pa ptheta pb lastgene)"
  by (simp add: servo_phase_def Let_def)

theorem outer_joint_amplification_witness:
  "servo_phase 6 0 1 0 1 0 = 1.8 * servo_phase 2 0 1 0 1 0
   \<and> servo_phase 9 0 1 0 1 0 = 1.8 * servo_phase 2 0 1 0 1 0
   \<and> servo_phase 5 0 1 0 1 0 = servo_phase 2 0 1 0 1 0
   \<and> servo_phase 2 0 1 0 1 0 = 20"
  using outer_joint_amplification [of 2 6 0 1 0 1 0]
    outer_joint_amplification [of 2 9 0 1 0 1 0]
    outer_joint_amplification [of 2 5 0 1 0 1 0]
  by (simp add: servo_phase_def Let_def)

text \<open>
  C1 (amended). Let the robot have \<open>n + 4\<close> servos after the physics step and the
  vector at least \<open>3 * n\<close> genes. For every joint group \<open>i < n\<close>, one call of
  \<^verbatim>\<open>procedure\<close> adds \<open>step\<close> to the clock (as floats) and leaves servo \<open>i\<close> at the angle
  \<open>phase * pi / 180\<close>, where \<open>phase = a * tanh (h * sin (f * pi * (x + theta))) + b\<close>
  with \<open>h = 4\<close>, \<open>a\<close> the first gene of the group times 40 (0 below 5), \<open>theta\<close> the
  second gene, \<open>b\<close> the third gene times 40 minus 20, \<open>f\<close> twice the last gene of the
  whole vector (the same for every group) and \<open>x\<close> the advanced clock; for the groups
  6 and 9 the phase is multiplied by 1.8 before the conversion.
\<close>

theorem phase_formula:
  assumes "length (servos (next_step step (sim_rob sim))) = n + 4" and "n + 4 < 2 ^ 64"
    and "3 * n \<le> length data" and "i < n"
  shows "\<exists>sim'. procedure next_step data step sim = Inr sim'
    \<and> sim_x sim' = float_add (sim_x sim) step
    \<and> servos (sim_rob sim') ! i =
        (let h = 4;
             a = (if data ! (3 * i) * 40 < 5 then 0 else data ! (3 * i) * 40);
             theta = data ! (3 * i + 1) * 1;
             b = data ! (3 * i + 2) * 40 - 20;
             f = 2 * last data;
             phase = a * tanh (h * sin (f * pi * (sim_x sim' + theta))) + b
         in (if i = 6 \<or> i = 9 then 1.8 * phase else phase) * pi / 180)"
  using assms(1,4)
  by (simp add: procedure_ok [where next_step = next_step, OF assms(1,2,3)]
      apply_calls_groups_nth group_angle_def servo_phase_def Let_def mult.commute)

text \<open>
  The claim as stated, with no factor, fails at group 6 of a robot with 11 servos: all
  genes 0, so the amplitude is dead and the bias is \<open>- 20\<close> degrees; the formula gives
  \<open>- pi / 9\<close>, servo 6 receives \<open>- pi / 5\<close>.
\<close>

theorem phase_formula_counterexample:
  "map_sum id (\<lambda>sim'. servos (sim_rob sim') ! 6)
     (procedure (\<lambda>t r. r) (replicate 21 0) 1
        \<lparr>sim_x = 0, sim_tilt = 0, sim_headless = True,
         sim_rob = \<lparr>servos = replicate 11 0, pos = (0, 0, 0), angle_calls = []\<rparr>,
         sim_boxes = [], sim_env = (0, 0, 0), sim_ground = []\<rparr>) = Inr (- pi / 5)
   \<and> ((if (0::real) * 40 < 5 then 0 else 0 * 40) * tanh (4 * sin (2 * 0 * pi * (1 + 0 * 1)))
        + (0 * 40 - 20)) * pi / 180 = - pi / 9
   \<and> - pi / 5 \<noteq> - pi / 9"
proof -
  let ?sim = "\<lparr>sim_x = 0, sim_tilt = 0, sim_headless = True,
         sim_rob = \<lparr>servos = replicate 11 0, pos = (0, 0, 0), angle_calls = []\<rparr>,
         sim_boxes = [], sim_env = (0, 0, 0), sim_ground = []\<rparr>"
  have "procedure (\<lambda>t r. r) (replicate 21 0) 1 ?sim = 
     Inr (?sim\<lparr>sim_x := float_add (sim_x ?sim) 1,
             sim_rob := ((\<lambda>t r. r) 1 (sim_rob ?sim))
               \<lparr>servos := apply_calls (concat (map (group_calls (replicate 21 0) (float_add (sim_x ?sim) 1)) [0..<7]))
                            (servos ((\<lambda>t r. r) 1 (sim_rob ?sim))),
                angle_calls := angle_calls ((\<lambda>t r. r) 1 (sim_rob ?sim)) @
                            concat (map (group_calls (replicate 21 0) (float_add (sim_x ?sim) 1)) [0..<7])\<rparr>\<rparr>)"
    by (rule procedure_ok) simp_all
  then show ?thesis
    by (simp add: apply_calls_groups_nth group_angle_def servo_phase_def Let_def)
qed

theorem phase_formula_witness:
  "\<exists>sim'. procedure (\<lambda>t r. r) [1, 0, 1, 1 / 4] 1
        \<lparr>sim_x = 0, sim_tilt = 0, sim_headless = True,
         sim_rob = \<lparr>servos = [0, 0, 0, 0, 0], pos = (0, 0, 0), angle_calls = []\<rparr>,
         sim_boxes = [], sim_env = (0, 0, 0), sim_ground = []\<rparr> = Inr sim'
     \<and> sim_x sim' = 1
     \<and> servos (sim_rob sim') ! 0 = (40 * tanh 4 + 20) * pi / 180"
  using phase_formula [of "\<lambda>t r. r" 1
        "\<lparr>sim_x = 0, sim_tilt = 0, sim_headless = True,
         sim_rob = \<lparr>servos = [0, 0, 0, 0, 0], pos = (0, 0, 0), angle_calls = []\<rparr>,
         sim_boxes = [], sim_env = (0, 0, 0), sim_ground = []\<rparr>" 1 "[1, 0, 1, 1 / 4]" 0]
  by (simp add: Let_def float_add_int cong: conj_cong)

text \<open>
  C3 (amended). Amplitude deadband: when the scaled amplitude \<open>pa * 40\<close> is below 5 it
  is replaced by 0, and the emitted phase is the bias \<open>b = pb * 40 - 20\<close> at every
  group index but 6 and 9, where it is \<open>1.8 * b\<close>; this holds at every clock \<open>x\<close> and
  for all values of the other genes.
\<close>

theorem amplitude_deadband:
  "pa * 40 < 5 \<Longrightarrow>
   servo_phase i x pa ptheta pb lastgene =
     (if i = 6 \<or> i = 9 then 1.8 * (pb * 40 - 20) else pb * 40 - 20)"
  by (simp add: servo_phase_def Let_def)

text \<open>
  The claim as stated fails at group 6: with all genes 0 the amplitude is dead and the
  bias is \<open>- 20\<close>, and the emitted phase is \<open>- 36\<close>.
\<close>

theorem amplitude_deadband_counterexample:
  "(0::real) * 40 < 5 \<and> servo_phase 6 0 0 0 0 0 = - 36 \<and> (0::real) * 40 - 20 = - 20"
  by (simp add: servo_phase_def Let_def)

theorem amplitude_deadband_witness:
  "(1 / 10 :: real) * 40 < 5 \<and> servo_phase 2 7 (1 / 10) 3 1 5 = 20
   \<and> servo_phase 9 7 (1 / 10) 3 1 5 = 36"
  using amplitude_deadband [of "1 / 10" 2 7 3 1 5] amplitude_deadband [of "1 / 10" 9 7 3 1 5]
  by simp

text \<open>
  C2. Let the robot have \<open>n + 4\<close> servos after the physics step and the vector at least
  \<open>3 * n\<close> genes. The \<^verbatim>\<open>set_angle\<close> calls of one call of \<^verbatim>\<open>procedure\<close> are,
  group by group in ascending order: for a group \<open>i \<le> 1\<close> one call, to servo \<open>i\<close>;
  for a group \<open>i > 1\<close> two calls, to servo \<open>i\<close> and to servo \<open>i + 4\<close>, with the same
  angle. The angle is the phase of the group converted from degrees to radians.
\<close>

theorem mirrored_joints:
  assumes "length (servos (next_step step (sim_rob sim))) = n + 4" and "n + 4 < 2 ^ 64"
    and "3 * n \<le> length data"
  shows "\<exists>sim'. procedure next_step data step sim = Inr sim'
    \<and> (let ang = (\<lambda>i. servo_phase i (sim_x sim') (data ! (3 * i)) (data ! (3 * i + 1))
                        (data ! (3 * i + 2)) (last data) * pi / 180)
       in angle_calls (sim_rob sim') =
            angle_calls (next_step step (sim_rob sim)) @
            concat (map (\<lambda>i. if i \<le> 1 then [(i, ang i)] else [(i, ang i), (i + 4, ang i)])
                      [0..<n]))"
proof -
  let ?x = "float_add (sim_x sim) step"
  let ?r = "next_step step (sim_rob sim)"
  let ?cs = "concat (map (group_calls data ?x) [0..<n])"
  let ?sim' = "sim\<lparr>sim_x := ?x,
      sim_rob := ?r\<lparr>servos := apply_calls ?cs (servos ?r), angle_calls := angle_calls ?r @ ?cs\<rparr>\<rparr>"
  have p: "procedure next_step data step sim = Inr ?sim'"
    using assms by (rule procedure_ok)
  have x: "sim_x ?sim' = ?x" by simp
  have gc: "group_calls data ?x =
     (\<lambda>i. if i \<le> 1
          then [(i, servo_phase i ?x (data ! (3 * i)) (data ! (3 * i + 1))
                        (data ! (3 * i + 2)) (last data) * pi / 180)]
          else [(i, servo_phase i ?x (data ! (3 * i)) (data ! (3 * i + 1))
                        (data ! (3 * i + 2)) (last data) * pi / 180),
                (i + 4, servo_phase i ?x (data ! (3 * i)) (data ! (3 * i + 1))
                        (data ! (3 * i + 2)) (last data) * pi / 180)])"
    by (rule ext) (simp add: group_calls_def group_angle_def)
  have c: "angle_calls (sim_rob ?sim') = angle_calls ?r @ ?cs" by simp
  show ?thesis
  proof (rule exI [of _ ?sim'], intro conjI)
    show "procedure next_step data step sim = Inr ?sim'" by (rule p)
    show "let ang = (\<lambda>i. servo_phase i (sim_x ?sim') (data ! (3 * i)) (data ! (3 * i + 1))
                        (data ! (3 * i + 2)) (last data) * pi / 180)
       in angle_calls (sim_rob ?sim') =
            angle_calls (next_step step (sim_rob sim)) @
            concat (map (\<lambda>i. if i \<le> 1 then [(i, ang i)] else [(i, ang i), (i + 4, ang i)])
                      [0..<n])"
      unfolding Let_def x c by (simp only: gc)
  qed
qed

theorem mirrored_joints_witness:
  "\<exists>sim'. procedure (\<lambda>t r. r) [0, 0, 0, 0, 0, 1 / 2, 0, 0, 1] 1
        \<lparr>sim_x = 0, sim_tilt = 0, sim_headless = True,
         sim_rob = \<lparr>servos = [0, 0, 0, 0, 0, 0, 0], pos = (0, 0, 0), angle_calls = []\<rparr>,
         sim_boxes = [], sim_env = (0, 0, 0), sim_ground = []\<rparr> = Inr sim'
     \<and> angle_calls (sim_rob sim') = [(0, - pi / 9), (1, 0), (2, pi / 9), (6, pi / 9)]"
  using mirrored_joints [of "\<lambda>t r. r" 1
        "\<lparr>sim_x = 0, sim_tilt = 0, sim_headless = True,
         sim_rob = \<lparr>servos = [0, 0, 0, 0, 0, 0, 0], pos = (0, 0, 0), angle_calls = []\<rparr>,
         sim_boxes = [], sim_env = (0, 0, 0), sim_ground = []\<rparr>" 3
        "[0, 0, 0, 0, 0, 1 / 2, 0, 0, 1]"]
  by (simp add: Let_def servo_phase_def upt_conv_Cons numeral_2_eq_2 [symmetric] cong: conj_cong)

text \<open>
  C8 (amended). Let the robot have \<open>n + 4\<close> servos after the physics step. With at
  least \<open>3 * n\<close> genes, which includes every vector of \<open>3 * n + 1\<close> genes or more, one
  call of \<^verbatim>\<open>procedure\<close> raises no error. With fewer genes the bounds-checked
  \<^verbatim>\<open>data.at\<close> throws \<^verbatim>\<open>std::out_of_range\<close> in the middle of the step: in the
  instance the exception leaves behind, the clock is advanced, the physics step is done
  and the angles of the groups with all three genes in the vector are set. In neither
  case is an element read outside the vector without a check.
\<close>

theorem short_vector_throws:
  assumes "length (servos (next_step step (sim_rob sim))) = n + 4" and "n + 4 < 2 ^ 64"
  shows "(3 * n \<le> length data \<longrightarrow> (\<exists>sim'. procedure next_step data step sim = Inr sim'))
    \<and> (length data < 3 * n \<longrightarrow>
         (\<exists>sim'. procedure next_step data step sim = Inl (OutOfRange, sim')
            \<and> sim_x sim' = float_add (sim_x sim) step
            \<and> pos (sim_rob sim') = pos (next_step step (sim_rob sim))
            \<and> (let ang = (\<lambda>i. servo_phase i (sim_x sim') (data ! (3 * i)) (data ! (3 * i + 1))
                                (data ! (3 * i + 2)) (last data) * pi / 180);
                    calls = concat (map (\<lambda>i. if i \<le> 1 then [(i, ang i)]
                                              else [(i, ang i), (i + 4, ang i)])
                                      [0..<length data div 3])
                in angle_calls (sim_rob sim') =
                     angle_calls (next_step step (sim_rob sim)) @ calls
                 \<and> servos (sim_rob sim') =
                     apply_calls calls (servos (next_step step (sim_rob sim))))))
    \<and> (\<forall>sim'. procedure next_step data step sim \<noteq> Inl (UndefinedBehaviour, sim'))"
proof (cases "3 * n \<le> length data")
  case True
  then show ?thesis
    by (simp add: procedure_ok [where next_step = next_step, OF assms True])
next
  case False
  then have short: "length data < 3 * n" by simp
  let ?x = "float_add (sim_x sim) step"
  let ?r = "next_step step (sim_rob sim)"
  let ?cs = "concat (map (group_calls data ?x) [0..<length data div 3])"
  let ?sim' = "sim\<lparr>sim_x := ?x,
      sim_rob := ?r\<lparr>servos := apply_calls ?cs (servos ?r), angle_calls := angle_calls ?r @ ?cs\<rparr>\<rparr>"
  have p: "procedure next_step data step sim = Inl (OutOfRange, ?sim')"
    using assms short by (rule procedure_short)
  have x: "sim_x ?sim' = ?x" by simp
  have gc: "group_calls data ?x =
     (\<lambda>i. if i \<le> 1
          then [(i, servo_phase i ?x (data ! (3 * i)) (data ! (3 * i + 1))
                        (data ! (3 * i + 2)) (last data) * pi / 180)]
          else [(i, servo_phase i ?x (data ! (3 * i)) (data ! (3 * i + 1))
                        (data ! (3 * i + 2)) (last data) * pi / 180),
                (i + 4, servo_phase i ?x (data ! (3 * i)) (data ! (3 * i + 1))
                        (data ! (3 * i + 2)) (last data) * pi / 180)])"
    by (rule ext) (simp add: group_calls_def group_angle_def)
  have c: "angle_calls (sim_rob ?sim') = angle_calls ?r @ ?cs"
    and s: "servos (sim_rob ?sim') = apply_calls ?cs (servos ?r)"
    and q: "pos (sim_rob ?sim') = pos ?r" by simp_all
  have "\<exists>sim'. procedure next_step data step sim = Inl (OutOfRange, sim')
            \<and> sim_x sim' = float_add (sim_x sim) step
            \<and> pos (sim_rob sim') = pos (next_step step (sim_rob sim))
            \<and> (let ang = (\<lambda>i. servo_phase i (sim_x sim') (data ! (3 * i)) (data ! (3 * i + 1))
                                (data ! (3 * i + 2)) (last data) * pi / 180);
                    calls = concat (map (\<lambda>i. if i \<le> 1 then [(i, ang i)]
                                              else [(i, ang i), (i + 4, ang i)])
                                      [0..<length data div 3])
                in angle_calls (sim_rob sim') =
                     angle_calls (next_step step (sim_rob sim)) @ calls
                 \<and> servos (sim_rob sim') =
                     apply_calls calls (servos (next_step step (sim_rob sim))))"
  proof (rule exI [of _ ?sim'], intro conjI)
    show "procedure next_step data step sim = Inl (OutOfRange, ?sim')" by (rule p)
    show "sim_x ?sim' = float_add (sim_x sim) step" by (rule x)
    show "pos (sim_rob ?sim') = pos (next_step step (sim_rob sim))" by (rule q)
    show "let ang = (\<lambda>i. servo_phase i (sim_x ?sim') (data ! (3 * i)) (data ! (3 * i + 1))
                                (data ! (3 * i + 2)) (last data) * pi / 180);
                    calls = concat (map (\<lambda>i. if i \<le> 1 then [(i, ang i)]
                                              else [(i, ang i), (i + 4, ang i)])
                                      [0..<length data div 3])
                in angle_calls (sim_rob ?sim') =
                     angle_calls (next_step step (sim_rob sim)) @ calls
                 \<and> servos (sim_rob ?sim') =
                     apply_calls calls (servos (next_step step (sim_rob sim)))"
      unfolding Let_def x c s by (simp only: gc simp_thms)
  qed
  then show ?thesis using short p by simp
qed

text \<open>
  The claim as stated says that a vector too short for the joint count is read out of
  bounds, with undefined behaviour. With 6 servos, two joint groups, and 4 genes the
  first group is served, and in the second group the read of the gene at index 4 is
  checked and throws; the clock is then at 1 and servo 0 at its new angle.
\<close>

theorem short_vector_throws_counterexample:
  "procedure (\<lambda>t r. r) [0, 0, 0, 0] 1
        \<lparr>sim_x = 0, sim_tilt = 0, sim_headless = True,
         sim_rob = \<lparr>servos = [0, 0, 0, 0, 0, 0], pos = (0, 0, 0), angle_calls = []\<rparr>,
         sim_boxes = [], sim_env = (0, 0, 0), sim_ground = []\<rparr> = Inl (OutOfRange,
        \<lparr>sim_x = 1, sim_tilt = 0, sim_headless = True,
         sim_rob = \<lparr>servos = [- pi / 9, 0, 0, 0, 0, 0], pos = (0, 0, 0), angle_calls = [(0, - pi / 9)]\<rparr>,
         sim_boxes = [], sim_env = (0, 0, 0), sim_ground = []\<rparr>)
   \<and> OutOfRange \<noteq> UndefinedBehaviour"
  by (simp add: procedure_def servo_groups_def servo_loop.simps vector_at_def vector_back_def
      set_joint_angles_def set_angle_def servo_phase_def float_add_int)

theorem short_vector_throws_witness:
  "(\<exists>sim'. procedure (\<lambda>t r. r) [1, 0, 1] 1
        \<lparr>sim_x = 0, sim_tilt = 0, sim_headless = True,
         sim_rob = \<lparr>servos = [0, 0, 0, 0, 0], pos = (0, 0, 0), angle_calls = []\<rparr>,
         sim_boxes = [], sim_env = (0, 0, 0), sim_ground = []\<rparr> = Inr sim')
   \<and> (\<exists>sim'. procedure (\<lambda>t r. r) [1, 0] 1
        \<lparr>sim_x = 0, sim_tilt = 0, sim_headless = True,
         sim_rob = \<lparr>servos = [0, 0, 0, 0, 0], pos = (0, 0, 0), angle_calls = []\<rparr>,
         sim_boxes = [], sim_env = (0, 0, 0), sim_ground = []\<rparr> = Inl (OutOfRange, sim')
        \<and> sim_x sim' = 1 \<and> angle_calls (sim_rob sim') = [] \<and> servos (sim_rob sim') = [0, 0, 0, 0, 0])"
  using short_vector_throws [of "\<lambda>t r. r" 1
        "\<lparr>sim_x = 0, sim_tilt = 0, sim_headless = True,
         sim_rob = \<lparr>servos = [0, 0, 0, 0, 0], pos = (0, 0, 0), angle_calls = []\<rparr>,
         sim_boxes = [], sim_env = (0, 0, 0), sim_ground = []\<rparr>" 1 "[1, 0, 1]"]
    short_vector_throws [of "\<lambda>t r. r" 1
        "\<lparr>sim_x = 0, sim_tilt = 0, sim_headless = True,
         sim_rob = \<lparr>servos = [0, 0, 0, 0, 0], pos = (0, 0, 0), angle_calls = []\<rparr>,
         sim_boxes = [], sim_env = (0, 0, 0), sim_ground = []\<rparr>" 1 "[1, 0]"]
  by (auto simp: Let_def float_add_int)

section \<open>Properties of the stepping loop\<close>

text \<open>
  C5. A call of \<^verbatim>\<open>run_conf\<close> that leaves the loop and returns, returns the negated
  first coordinate of the robot's position at that moment, and nothing else: a robot that
  ends at \<open>x = 3.2\<close> has fitness \<open>- 3.2\<close>.
\<close>

theorem fitness_is_negated_x:
  "run_conf n vdone next_step config step step_limit sim = Some (Returned f sim') \<Longrightarrow>
   f = - fst (pos (sim_rob sim'))"
  using run_loop_returned by (simp add: run_conf_def)

theorem fitness_is_negated_x_witness:
  "run_conf 2 (\<lambda>k. False) (\<lambda>t r. r\<lparr>pos := (fst (pos r) + 1.6, snd (pos r))\<rparr>) [] 1 2
        \<lparr>sim_x = 0, sim_tilt = 0, sim_headless = True,
         sim_rob = \<lparr>servos = [0, 0, 0, 0], pos = (0, 0, 0), angle_calls = []\<rparr>,
         sim_boxes = [], sim_env = (0, 0, 0), sim_ground = []\<rparr>
     = Some (Returned (- 3.2)
        \<lparr>sim_x = 2, sim_tilt = 0, sim_headless = True,
         sim_rob = \<lparr>servos = [0, 0, 0, 0], pos = (3.2, 0, 0), angle_calls = []\<rparr>,
         sim_boxes = [], sim_env = (0, 0, 0), sim_ground = []\<rparr>)
   \<and> - 3.2 = - fst (pos (sim_rob
        \<lparr>sim_x = 2, sim_tilt = 0, sim_headless = True,
         sim_rob = \<lparr>servos = [0, 0, 0, 0], pos = (3.2, 0, 0), angle_calls = []\<rparr>,
         sim_boxes = [], sim_env = (0, 0, 0), sim_ground = []\<rparr>))"
proof -
  have e: "run_conf 2 (\<lambda>k. False) (\<lambda>t r. r\<lparr>pos := (fst (pos r) + 1.6, snd (pos r))\<rparr>) [] 1 2
        \<lparr>sim_x = 0, sim_tilt = 0, sim_headless = True,
         sim_rob = \<lparr>servos = [0, 0, 0, 0], pos = (0, 0, 0), angle_calls = []\<rparr>,
         sim_boxes = [], sim_env = (0, 0, 0), sim_ground = []\<rparr>
     = Some (Returned (- 3.2)
        \<lparr>sim_x = 2, sim_tilt = 0, sim_headless = True,
         sim_rob = \<lparr>servos = [0, 0, 0, 0], pos = (3.2, 0, 0), angle_calls = []\<rparr>,
         sim_boxes = [], sim_env = (0, 0, 0), sim_ground = []\<rparr>)"
    by (simp add: run_conf_def run_loop_numeral procedure_def servo_groups_def servo_loop_done
        float_add_int float_round_int)
  from fitness_is_negated_x [OF e] e show ?thesis by simp
qed

text \<open>
  C9. On a freshly constructed instance, \<^verbatim>\<open>run_conf\<close> with step limit 0 returns
  without fuel, that is without a single iteration: the simulation it returns is the
  fresh one (no physics step, no \<^verbatim>\<open>set_angle\<close> call, the clock still 0), and the
  fitness is that of the initial position. More fuel changes nothing.
\<close>

theorem zero_step_limit:
  "run_conf 0 vdone next_step config step 0 (Simulation ur orob tilt count sz headless g) =
     Some (Returned (- fst (pos orob)) (Simulation ur orob tilt count sz headless g))
   \<and> run_conf n vdone next_step config step 0 (Simulation ur orob tilt count sz headless g) =
     Some (Returned (- fst (pos orob)) (Simulation ur orob tilt count sz headless g))"
  by (cases n) (simp_all add: run_conf_def Simulation_def add_blocks_def add_blocks_loop_frame)

text \<open>
  C10 (amended). Let no exception and no abort be possible: the physics keeps the
  number of servos, the robot has \<open>n + 4\<close> of them, the vector has at least \<open>3 * n\<close>
  genes, and the simulation is headless or \<^verbatim>\<open>v->done()\<close> never answers true. Then
  the loop of \<^verbatim>\<open>run_conf\<close> ends, after finitely many iterations and with the fitness,
  exactly when the clock reaches the step limit: when one of the floats \<open>x\<close>,
  \<open>x + step\<close>, \<open>(x + step) + step\<close>, ... (float sums) is not below the step limit
  as a float; and it ends in no other way. With \<open>step \<le> 0\<close> and the clock below the
  step limit at entry the loop never ends.
\<close>

theorem run_conf_termination:
  assumes "\<forall>t r. length (servos (next_step t r)) = length (servos r)"
    and "length (servos (sim_rob sim)) = n + 4" and "n + 4 < 2 ^ 64"
    and "3 * n \<le> length config"
    and "sim_headless sim \<or> (\<forall>k. \<not> vdone k)"
  shows "((\<exists>fuel sim'. run_conf fuel vdone next_step config step step_limit sim =
              Some (Returned (- fst (pos (sim_rob sim'))) sim'))
          \<longleftrightarrow> (\<exists>j. \<not> ((\<lambda>y. float_add y step) ^^ j) (sim_x sim)
                       < float_round (real_of_int step_limit)))
    \<and> (\<forall>fuel out. run_conf fuel vdone next_step config step step_limit sim = Some out \<longrightarrow>
          (\<exists>sim'. out = Returned (- fst (pos (sim_rob sim'))) sim'))
    \<and> (step \<le> 0 \<and> float_round (sim_x sim) = sim_x sim
          \<and> sim_x sim < float_round (real_of_int step_limit) \<longrightarrow>
          (\<forall>fuel. run_conf fuel vdone next_step config step step_limit sim = None))"
proof -
  have none: "run_conf fuel vdone next_step config step step_limit sim = None \<longleftrightarrow>
      (\<forall>j\<le>fuel. ((\<lambda>y. float_add y step) ^^ j) (sim_x sim)
          < float_round (real_of_int step_limit))" for fuel
    unfolding run_conf_def
    using assms(2,5) by (rule run_loop_None_iff [OF assms(1,3,4)])
  have ret: "\<exists>sim'. out = Returned (- fst (pos (sim_rob sim'))) sim'"
    if "run_conf fuel vdone next_step config step step_limit sim = Some out" for fuel out
    using assms(2,5) that unfolding run_conf_def
    by (rule run_loop_wellformed_returns [OF assms(1,3,4)])
  have 1: "(\<exists>fuel sim'. run_conf fuel vdone next_step config step step_limit sim =
              Some (Returned (- fst (pos (sim_rob sim'))) sim'))
          \<longleftrightarrow> (\<exists>j. \<not> ((\<lambda>y. float_add y step) ^^ j) (sim_x sim)
                       < float_round (real_of_int step_limit))"
  proof
    assume "\<exists>fuel sim'. run_conf fuel vdone next_step config step step_limit sim =
              Some (Returned (- fst (pos (sim_rob sim'))) sim')"
    then obtain fuel where "run_conf fuel vdone next_step config step step_limit sim \<noteq> None"
      by auto
    then show "\<exists>j. \<not> ((\<lambda>y. float_add y step) ^^ j) (sim_x sim)
                       < float_round (real_of_int step_limit)"
      unfolding none by blast
  next
    assume "\<exists>j. \<not> ((\<lambda>y. float_add y step) ^^ j) (sim_x sim)
                       < float_round (real_of_int step_limit)"
    then obtain j where "\<not> ((\<lambda>y. float_add y step) ^^ j) (sim_x sim)
                       < float_round (real_of_int step_limit)" ..
    then have "run_conf j vdone next_step config step step_limit sim \<noteq> None"
      unfolding none by blast
    then obtain out where o: "run_conf j vdone next_step config step step_limit sim = Some out"
      by auto
    from ret [OF o] o show "\<exists>fuel sim'. run_conf fuel vdone next_step config step step_limit sim =
              Some (Returned (- fst (pos (sim_rob sim'))) sim')"
      by blast
  qed
  have 3: "run_conf fuel vdone next_step config step step_limit sim = None"
    if "step \<le> 0" and "float_round (sim_x sim) = sim_x sim"
      and "sim_x sim < float_round (real_of_int step_limit)" for fuel
  proof -
    have "((\<lambda>y. float_add y step) ^^ j) (sim_x sim) < float_round (real_of_int step_limit)" for j
      using float_clock_nonincreasing [OF that(1,2), of j] that(3) by simp
    then show ?thesis unfolding none by blast
  qed
  from 1 ret 3 show ?thesis by blast
qed

text \<open>
  The claim as stated fails in both directions. A positive step does not end the loop:
  on a fresh headless instance with \<open>step = 1\<close> and step limit 16777218 the clock
  counts up to \<open>2 ^ 24\<close> and stays there, since the float sum of \<open>2 ^ 24\<close> and 1 is
  \<open>2 ^ 24\<close>, so no amount of fuel gives a result. And with \<open>step = 0\<close> and the clock
  below the limit the loop ends in its first iteration when the vector is too short
  (\<^verbatim>\<open>std::out_of_range\<close>) or when the user aborts (\<^verbatim>\<open>exit\<close>).
\<close>

theorem run_conf_termination_counterexample:
  "(\<forall>fuel. run_conf fuel (\<lambda>k. False) (\<lambda>t r. r) [] 1 16777218
        \<lparr>sim_x = 0, sim_tilt = 0, sim_headless = True,
         sim_rob = \<lparr>servos = [0, 0, 0, 0], pos = (0, 0, 0), angle_calls = []\<rparr>,
         sim_boxes = [], sim_env = (0, 0, 0), sim_ground = []\<rparr> = None)
   \<and> run_conf (Suc 0) (\<lambda>k. False) (\<lambda>t r. r) [] 0 1
        \<lparr>sim_x = 0, sim_tilt = 0, sim_headless = True,
         sim_rob = \<lparr>servos = [0, 0, 0, 0, 0], pos = (0, 0, 0), angle_calls = []\<rparr>,
         sim_boxes = [], sim_env = (0, 0, 0), sim_ground = []\<rparr> = Some (Threw OutOfRange
        \<lparr>sim_x = 0, sim_tilt = 0, sim_headless = True,
         sim_rob = \<lparr>servos = [0, 0, 0, 0, 0], pos = (0, 0, 0), angle_calls = []\<rparr>,
         sim_boxes = [], sim_env = (0, 0, 0), sim_ground = []\<rparr>)
   \<and> run_conf (Suc 0) (\<lambda>k. True) (\<lambda>t r. r) [] 0 1
        \<lparr>sim_x = 0, sim_tilt = 0, sim_headless = False,
         sim_rob = \<lparr>servos = [0, 0, 0, 0], pos = (0, 0, 0), angle_calls = []\<rparr>,
         sim_boxes = [], sim_env = (0, 0, 0), sim_ground = []\<rparr> = Some Exited"
proof -
  have stuck: "((\<lambda>y. float_add y 1) ^^ j) 0 \<in> \<int> \<and> 0 \<le> ((\<lambda>y. float_add y 1) ^^ j) 0
      \<and> ((\<lambda>y. float_add y 1) ^^ j) 0 \<le> 2 ^ 24" for j
  proof (induction j)
    case 0
    then show ?case by simp
  next
    case (Suc j)
    then show ?case
      using float_count_step [of "((\<lambda>y. float_add y 1) ^^ j) 0"] by simp
  qed
  have lim: "float_round (real_of_int 16777218) = 16777218"
    using float_round_16777218 by simp
  have "run_conf fuel (\<lambda>k. False) (\<lambda>t r. r) [] 1 16777218
        \<lparr>sim_x = 0, sim_tilt = 0, sim_headless = True,
         sim_rob = \<lparr>servos = [0, 0, 0, 0], pos = (0, 0, 0), angle_calls = []\<rparr>,
         sim_boxes = [], sim_env = (0, 0, 0), sim_ground = []\<rparr> = None" for fuel
  proof -
    have "run_loop fuel (\<lambda>k. False) (\<lambda>t r. r) [] 1 16777218 0
        \<lparr>sim_x = 0, sim_tilt = 0, sim_headless = True,
         sim_rob = \<lparr>servos = [0, 0, 0, 0], pos = (0, 0, 0), angle_calls = []\<rparr>,
         sim_boxes = [], sim_env = (0, 0, 0), sim_ground = []\<rparr> = None \<longleftrightarrow>
      (\<forall>j\<le>fuel. ((\<lambda>y. float_add y 1) ^^ j) (sim_x
        \<lparr>sim_x = 0, sim_tilt = 0, sim_headless = True,
         sim_rob = \<lparr>servos = [0, 0, 0, 0], pos = (0, 0, 0), angle_calls = []\<rparr>,
         sim_boxes = [], sim_env = (0, 0, 0), sim_ground = []\<rparr>) < float_round (real_of_int 16777218))"
      by (rule run_loop_None_iff [where n = 0]) simp_all
    moreover have "((\<lambda>y. float_add y 1) ^^ j) 0 < float_round (real_of_int 16777218)" for j
      unfolding lim using stuck [of j] by simp
    ultimately show ?thesis by (simp add: run_conf_def)
  qed
  moreover have "run_conf (Suc 0) (\<lambda>k. False) (\<lambda>t r. r) [] 0 1
        \<lparr>sim_x = 0, sim_tilt = 0, sim_headless = True,
         sim_rob = \<lparr>servos = [0, 0, 0, 0, 0], pos = (0, 0, 0), angle_calls = []\<rparr>,
         sim_boxes = [], sim_env = (0, 0, 0), sim_ground = []\<rparr> = Some (Threw OutOfRange
        \<lparr>sim_x = 0, sim_tilt = 0, sim_headless = True,
         sim_rob = \<lparr>servos = [0, 0, 0, 0, 0], pos = (0, 0, 0), angle_calls = []\<rparr>,
         sim_boxes = [], sim_env = (0, 0, 0), sim_ground = []\<rparr>)"
    by (simp add: run_conf_def procedure_def servo_groups_def servo_loop.simps vector_at_def
        float_add_int float_round_int)
  moreover have "run_conf (Suc 0) (\<lambda>k. True) (\<lambda>t r. r) [] 0 1
        \<lparr>sim_x = 0, sim_tilt = 0, sim_headless = False,
         sim_rob = \<lparr>servos = [0, 0, 0, 0], pos = (0, 0, 0), angle_calls = []\<rparr>,
         sim_boxes = [], sim_env = (0, 0, 0), sim_ground = []\<rparr> = Some Exited"
    by (simp add: run_conf_def float_round_int)
  ultimately show ?thesis by blast
qed

theorem run_conf_termination_witness:
  "(\<exists>fuel sim'. run_conf fuel (\<lambda>k. False) (\<lambda>t r. r) [] 1 2
        \<lparr>sim_x = 0, sim_tilt = 0, sim_headless = True,
         sim_rob = \<lparr>servos = [0, 0, 0, 0], pos = (0, 0, 0), angle_calls = []\<rparr>,
         sim_boxes = [], sim_env = (0, 0, 0), sim_ground = []\<rparr> = Some (Returned (- fst (pos (sim_rob sim'))) sim'))
   \<and> (\<forall>fuel. run_conf fuel (\<lambda>k. False) (\<lambda>t r. r) [] 0 2
        \<lparr>sim_x = 0, sim_tilt = 0, sim_headless = True,
         sim_rob = \<lparr>servos = [0, 0, 0, 0], pos = (0, 0, 0), angle_calls = []\<rparr>,
         sim_boxes = [], sim_env = (0, 0, 0), sim_ground = []\<rparr> = None)"
proof -
  have r: "\<exists>j. \<not> ((\<lambda>y. float_add y 1) ^^ j) (sim_x
        \<lparr>sim_x = 0, sim_tilt = 0, sim_headless = True,
         sim_rob = \<lparr>servos = [0, 0, 0, 0], pos = (0, 0, 0), angle_calls = []\<rparr>,
         sim_boxes = [], sim_env = (0, 0, 0), sim_ground = []\<rparr>) < float_round (real_of_int 2)"
    by (rule exI [of _ "Suc (Suc 0)"]) (simp add: float_add_int float_round_int)
  have a: "\<exists>fuel sim'. run_conf fuel (\<lambda>k. False) (\<lambda>t r. r) [] 1 2
        \<lparr>sim_x = 0, sim_tilt = 0, sim_headless = True,
         sim_rob = \<lparr>servos = [0, 0, 0, 0], pos = (0, 0, 0), angle_calls = []\<rparr>,
         sim_boxes = [], sim_env = (0, 0, 0), sim_ground = []\<rparr> = Some (Returned (- fst (pos (sim_rob sim'))) sim')"
    using run_conf_termination [of "\<lambda>t r. r"
        "\<lparr>sim_x = 0, sim_tilt = 0, sim_headless = True,
         sim_rob = \<lparr>servos = [0, 0, 0, 0], pos = (0, 0, 0), angle_calls = []\<rparr>,
         sim_boxes = [], sim_env = (0, 0, 0), sim_ground = []\<rparr>" 0 "[]" "\<lambda>k. False" 1 2] r
    by simp
  have b: "\<forall>fuel. run_conf fuel (\<lambda>k. False) (\<lambda>t r. r) [] 0 2
        \<lparr>sim_x = 0, sim_tilt = 0, sim_headless = True,
         sim_rob = \<lparr>servos = [0, 0, 0, 0], pos = (0, 0, 0), angle_calls = []\<rparr>,
         sim_boxes = [], sim_env = (0, 0, 0), sim_ground = []\<rparr> = None"
    using run_conf_termination [of "\<lambda>t r. r"
        "\<lparr>sim_x = 0, sim_tilt = 0, sim_headless = True,
         sim_rob = \<lparr>servos = [0, 0, 0, 0], pos = (0, 0, 0), angle_calls = []\<rparr>,
         sim_boxes = [], sim_env = (0, 0, 0), sim_ground = []\<rparr>" 0 "[]" "\<lambda>k. False" 0 2]
    by (simp add: float_round_int)
  from a b show ?thesis ..
qed

text \<open>
  C6 (amended). The clock is not reset between calls of \<^verbatim>\<open>run_conf\<close> on one
  instance, and each iteration replaces it by the float sum of the clock and \<open>step\<close>.
  A call that returns after exactly \<open>m1\<close> iterations (it returns with fuel \<open>m1\<close> and
  with no less) leaves the clock at the \<open>m1\<close>-fold float sum from its value at entry;
  a second call on the resulting instance that returns after exactly \<open>m2\<close> iterations
  leaves it at the \<open>(m1 + m2)\<close>-fold float sum from the first value.
\<close>

theorem clock_accumulates:
  assumes "run_conf m1 vdone1 next_step config1 step limit1 sim = Some (Returned f1 sim1)"
    and "\<forall>j<m1. run_conf j vdone1 next_step config1 step limit1 sim = None"
    and "run_conf m2 vdone2 next_step config2 step limit2 sim1 = Some (Returned f2 sim2)"
    and "\<forall>j<m2. run_conf j vdone2 next_step config2 step limit2 sim1 = None"
  shows "sim_x sim1 = ((\<lambda>y. float_add y step) ^^ m1) (sim_x sim)
    \<and> sim_x sim2 = ((\<lambda>y. float_add y step) ^^ (m1 + m2)) (sim_x sim)
    \<and> (\<forall>a b. procedure next_step config1 step a = Inr b \<longrightarrow>
          sim_x b = float_add (sim_x a) step)"
proof -
  have 1: "sim_x sim1 = ((\<lambda>y. float_add y step) ^^ m1) (sim_x sim)"
    using assms(1,2) unfolding run_conf_def by (rule run_loop_exact_clock)
  have 2: "sim_x sim2 = ((\<lambda>y. float_add y step) ^^ m2) (sim_x sim1)"
    using assms(3,4) unfolding run_conf_def by (rule run_loop_exact_clock)
  have "((\<lambda>y. float_add y step) ^^ (m2 + m1)) (sim_x sim) =
      ((\<lambda>y. float_add y step) ^^ m2) (((\<lambda>y. float_add y step) ^^ m1) (sim_x sim))"
    by (simp only: funpow_add o_apply)
  with 1 2 have "sim_x sim2 = ((\<lambda>y. float_add y step) ^^ (m1 + m2)) (sim_x sim)"
    by (simp add: add.commute)
  with 1 procedure_frame(1) show ?thesis by blast
qed

text \<open>
  The claim as stated says that each iteration adds exactly \<open>step\<close> to the clock. At
  the clock \<open>2 ^ 24 = 16777216\<close> an iteration with \<open>step = 1\<close> leaves the instance as
  it is, the clock included: the float sum of 16777216 and 1 is 16777216.
\<close>

theorem clock_accumulates_counterexample:
  "procedure (\<lambda>t r. r) [] 1
        \<lparr>sim_x = 16777216, sim_tilt = 0, sim_headless = True,
         sim_rob = \<lparr>servos = [0, 0, 0, 0], pos = (0, 0, 0), angle_calls = []\<rparr>,
         sim_boxes = [], sim_env = (0, 0, 0), sim_ground = []\<rparr> = Inr
        \<lparr>sim_x = 16777216, sim_tilt = 0, sim_headless = True,
         sim_rob = \<lparr>servos = [0, 0, 0, 0], pos = (0, 0, 0), angle_calls = []\<rparr>,
         sim_boxes = [], sim_env = (0, 0, 0), sim_ground = []\<rparr>
   \<and> sim_x
        \<lparr>sim_x = 16777216, sim_tilt = 0, sim_headless = True,
         sim_rob = \<lparr>servos = [0, 0, 0, 0], pos = (0, 0, 0), angle_calls = []\<rparr>,
         sim_boxes = [], sim_env = (0, 0, 0), sim_ground = []\<rparr> + 1 \<noteq> sim_x
        \<lparr>sim_x = 16777216, sim_tilt = 0, sim_headless = True,
         sim_rob = \<lparr>servos = [0, 0, 0, 0], pos = (0, 0, 0), angle_calls = []\<rparr>,
         sim_boxes = [], sim_env = (0, 0, 0), sim_ground = []\<rparr>"
proof -
  have "float_add 16777216 1 = 16777216"
    using float_round_absorb by (simp add: float_add_def)
  then show ?thesis
    by (simp add: procedure_def servo_groups_def servo_loop_done)
qed

text \<open>
  With \<open>step = 1\<close> and the step limits 10 and 20 each call runs exactly 10 iterations,
  and the clock is at 20 after both, not at 10 twice.
\<close>

theorem clock_accumulates_witness:
  "run_conf 10 (\<lambda>k. False) (\<lambda>t r. r) [] 1 10 \<lparr>sim_x = 0, sim_tilt = 0, sim_headless = True,
         sim_rob = \<lparr>servos = [0, 0, 0, 0], pos = (0, 0, 0), angle_calls = []\<rparr>,
         sim_boxes = [], sim_env = (0, 0, 0), sim_ground = []\<rparr> = Some (Returned 0 \<lparr>sim_x = 10, sim_tilt = 0, sim_headless = True,
         sim_rob = \<lparr>servos = [0, 0, 0, 0], pos = (0, 0, 0), angle_calls = []\<rparr>,
         sim_boxes = [], sim_env = (0, 0, 0), sim_ground = []\<rparr>)
   \<and> run_conf 9 (\<lambda>k. False) (\<lambda>t r. r) [] 1 10 \<lparr>sim_x = 0, sim_tilt = 0, sim_headless = True,
         sim_rob = \<lparr>servos = [0, 0, 0, 0], pos = (0, 0, 0), angle_calls = []\<rparr>,
         sim_boxes = [], sim_env = (0, 0, 0), sim_ground = []\<rparr> = None
   \<and> run_conf 10 (\<lambda>k. False) (\<lambda>t r. r) [] 1 20 \<lparr>sim_x = 10, sim_tilt = 0, sim_headless = True,
         sim_rob = \<lparr>servos = [0, 0, 0, 0], pos = (0, 0, 0), angle_calls = []\<rparr>,
         sim_boxes = [], sim_env = (0, 0, 0), sim_ground = []\<rparr> = Some (Returned 0 \<lparr>sim_x = 20, sim_tilt = 0, sim_headless = True,
         sim_rob = \<lparr>servos = [0, 0, 0, 0], pos = (0, 0, 0), angle_calls = []\<rparr>,
         sim_boxes = [], sim_env = (0, 0, 0), sim_ground = []\<rparr>)
   \<and> run_conf 9 (\<lambda>k. False) (\<lambda>t r. r) [] 1 20 \<lparr>sim_x = 10, sim_tilt = 0, sim_headless = True,
         sim_rob = \<lparr>servos = [0, 0, 0, 0], pos = (0, 0, 0), angle_calls = []\<rparr>,
         sim_boxes = [], sim_env = (0, 0, 0), sim_ground = []\<rparr> = None
   \<and> sim_x \<lparr>sim_x = 20, sim_tilt = 0, sim_headless = True,
         sim_rob = \<lparr>servos = [0, 0, 0, 0], pos = (0, 0, 0), angle_calls = []\<rparr>,
         sim_boxes = [], sim_env = (0, 0, 0), sim_ground = []\<rparr> = ((\<lambda>y. float_add y 1) ^^ (10 + 10)) (sim_x \<lparr>sim_x = 0, sim_tilt = 0, sim_headless = True,
         sim_rob = \<lparr>servos = [0, 0, 0, 0], pos = (0, 0, 0), angle_calls = []\<rparr>,
         sim_boxes = [], sim_env = (0, 0, 0), sim_ground = []\<rparr>)
   \<and> sim_x \<lparr>sim_x = 20, sim_tilt = 0, sim_headless = True,
         sim_rob = \<lparr>servos = [0, 0, 0, 0], pos = (0, 0, 0), angle_calls = []\<rparr>,
         sim_boxes = [], sim_env = (0, 0, 0), sim_ground = []\<rparr> = 20"
proof -
  have a: "run_conf 10 (\<lambda>k. False) (\<lambda>t r. r) [] 1 10 \<lparr>sim_x = 0, sim_tilt = 0, sim_headless = True,
         sim_rob = \<lparr>servos = [0, 0, 0, 0], pos = (0, 0, 0), angle_calls = []\<rparr>,
         sim_boxes = [], sim_env = (0, 0, 0), sim_ground = []\<rparr> = Some (Returned 0 \<lparr>sim_x = 10, sim_tilt = 0, sim_headless = True,
         sim_rob = \<lparr>servos = [0, 0, 0, 0], pos = (0, 0, 0), angle_calls = []\<rparr>,
         sim_boxes = [], sim_env = (0, 0, 0), sim_ground = []\<rparr>)"
    by (simp add: run_conf_def run_loop_numeral procedure_def servo_groups_def servo_loop_done
        float_add_int float_round_int)
  have a': "run_conf 9 (\<lambda>k. False) (\<lambda>t r. r) [] 1 10 \<lparr>sim_x = 0, sim_tilt = 0, sim_headless = True,
         sim_rob = \<lparr>servos = [0, 0, 0, 0], pos = (0, 0, 0), angle_calls = []\<rparr>,
         sim_boxes = [], sim_env = (0, 0, 0), sim_ground = []\<rparr> = None"
    by (simp add: run_conf_def run_loop_numeral procedure_def servo_groups_def servo_loop_done
        float_add_int float_round_int)
  have b: "run_conf 10 (\<lambda>k. False) (\<lambda>t r. r) [] 1 20 \<lparr>sim_x = 10, sim_tilt = 0, sim_headless = True,
         sim_rob = \<lparr>servos = [0, 0, 0, 0], pos = (0, 0, 0), angle_calls = []\<rparr>,
         sim_boxes = [], sim_env = (0, 0, 0), sim_ground = []\<rparr> = Some (Returned 0 \<lparr>sim_x = 20, sim_tilt = 0, sim_headless = True,
         sim_rob = \<lparr>servos = [0, 0, 0, 0], pos = (0, 0, 0), angle_calls = []\<rparr>,
         sim_boxes = [], sim_env = (0, 0, 0), sim_ground = []\<rparr>)"
    by (simp add: run_conf_def run_loop_numeral procedure_def servo_groups_def servo_loop_done
        float_add_int float_round_int)
  have b': "run_conf 9 (\<lambda>k. False) (\<lambda>t r. r) [] 1 20 \<lparr>sim_x = 10, sim_tilt = 0, sim_headless = True,
         sim_rob = \<lparr>servos = [0, 0, 0, 0], pos = (0, 0, 0), angle_calls = []\<rparr>,
         sim_boxes = [], sim_env = (0, 0, 0), sim_ground = []\<rparr> = None"
    by (simp add: run_conf_def run_loop_numeral procedure_def servo_groups_def servo_loop_done
        float_add_int float_round_int)
  have a'': "\<forall>j<10. run_conf j (\<lambda>k. False) (\<lambda>t r. r) [] 1 10 \<lparr>sim_x = 0, sim_tilt = 0, sim_headless = True,
         sim_rob = \<lparr>servos = [0, 0, 0, 0], pos = (0, 0, 0), angle_calls = []\<rparr>,
         sim_boxes = [], sim_env = (0, 0, 0), sim_ground = []\<rparr> = None"
    using a' unfolding run_conf_def by (auto intro: run_loop_None_below)
  have b'': "\<forall>j<10. run_conf j (\<lambda>k. False) (\<lambda>t r. r) [] 1 20 \<lparr>sim_x = 10, sim_tilt = 0, sim_headless = True,
         sim_rob = \<lparr>servos = [0, 0, 0, 0], pos = (0, 0, 0), angle_calls = []\<rparr>,
         sim_boxes = [], sim_env = (0, 0, 0), sim_ground = []\<rparr> = None"
    using b' unfolding run_conf_def by (auto intro: run_loop_None_below)
  from clock_accumulates [OF a a'' b b''] a a' b b' show ?thesis by simp
qed

section \<open>Properties of the terrain\<close>

text \<open>
  C7. Let \<open>(a, lx, ly)\<close> be the draws for the \<open>i\<close>-th obstacle of a fresh instance, and
  \<open>(x, y, z)\<close> its centre. Then \<open>x = lx + xc\<close> and \<open>y = ly + yc\<close> with \<open>xc = - 0.4\<close>
  and \<open>yc = 0\<close>; its height \<open>bsize\<close> is \<open>a\<close> times the Gaussian with spread
  \<open>s = 0.5\<close> at its own centre; its width and depth are \<open>4 * bsize\<close>;
  \<open>z = bsize / 2 + tan tilt * (- x)\<close>; it is rotated by \<open>- tilt\<close> in the component in
  which the environment is tilted by \<open>tilt\<close>; it is fixed and part of the ground.
\<close>

theorem obstacle_geometry:
  assumes "i < nat count" and "block_draws ur (nat count) sz g ! i = (a, lx, ly)"
  shows "let sim = Simulation ur orob tilt count sz headless g;
             b = sim_boxes sim ! i;
             (x, y, z) = box_pos b;
             bsize = box_h b
         in length (sim_boxes sim) = nat count
          \<and> x = lx + (- 0.4) \<and> y = ly + 0
          \<and> bsize = a * exp (- ((x - (- 0.4))\<^sup>2 / (2 * 0.5\<^sup>2) + (y - 0)\<^sup>2 / (2 * 0.5\<^sup>2)))
          \<and> box_w b = 4 * bsize \<and> box_l b = 4 * bsize
          \<and> z = bsize / 2 + tan tilt * (- x)
          \<and> box_rot b = (0, - tilt, 0) \<and> sim_env sim = (0, tilt, 0)
          \<and> box_fixed b \<and> sim_ground sim ! i = b"
  using assms
  by (simp add: Simulation_def add_blocks_def add_blocks_loop_boxes add_blocks_loop_frame
      block_of_def Let_def algebra_simps)

theorem obstacle_geometry_witness:
  "let sim = Simulation (\<lambda>lo hi g. ((lo + hi) / 2, g))
               \<lparr>servos = [0, 0, 0, 0], pos = (0, 0, 0), angle_calls = []\<rparr> 0 1 6 True ();
       b = sim_boxes sim ! 0
   in length (sim_boxes sim) = 1
    \<and> box_pos b = (- 0.4, 0, 0.002)
    \<and> box_h b = 0.004 \<and> box_w b = 0.016 \<and> box_l b = 0.016
    \<and> box_rot b = (0, 0, 0) \<and> sim_env sim = (0, 0, 0)
    \<and> box_fixed b \<and> sim_ground sim ! 0 = b"
  using obstacle_geometry [of 0 1 "\<lambda>lo hi g. ((lo + hi) / 2, g)" 6 "()" "0.004" 0 0
      "\<lparr>servos = [0, 0, 0, 0], pos = (0, 0, 0), angle_calls = []\<rparr>" 0 True]
  by (simp add: Let_def split: prod.splits)

end
